theory Spec2Isabelle
  imports Main "HOL-Library.Word"
begin

unbundle bit_operations_syntax

section \<open>The object database of git4go: data model\<close>

text \<open>
  The development follows \<^verbatim>\<open>odb.go\<close> (the backend-chain dispatcher and the alternates
  loader) and \<^verbatim>\<open>odb_loose.go\<close> (the header codec and the loose backend). A Go function
  returns a value, returns a non-nil \<^verbatim>\<open>error\<close>, or panics; the three ways out are the
  three constructors of \<open>outcome\<close>. The error values of the source are strings made by
  \<^verbatim>\<open>errors.New\<close> or errors of the Go library; they are grouped by the kinds the design
  document names.
\<close>

type_synonym byte = "8 word"
type_synonym bytes = "byte list"

datatype error = InvalidFormat | NotFound | Ambiguous | Corrupt | IOError

datatype panic = IndexOutOfRange | SliceBoundsOutOfRange | NilDereference

datatype 'a outcome = Return 'a | Failure error | Panic panic

text \<open>What the operating system answers for a path: nothing there, something there that
  cannot be opened, or the content.\<close>

datatype 'a access = NotExist | Inaccessible | Found 'a

definition str :: "string \<Rightarrow> bytes" where
  "str s = map of_char s"

subsection \<open>Object types\<close>

text \<open>
  Modelled from the spec: the declaration of \<^verbatim>\<open>ObjectType\<close> and of its constants is not
  among the sources. In Go it is an integer type (\<^verbatim>\<open>parseBinaryObjectHeader\<close> converts a
  three-bit number into it), so it is \<open>int\<close> here; the numbers of the named types are
  those of the git object format, with \<open>Bad\<close> the sentinel outside the stored range.
\<close>

type_synonym ObjectType = int

definition ObjectBad :: ObjectType where "ObjectBad = - 1"
definition ObjectCommit :: ObjectType where "ObjectCommit = 1"
definition ObjectTree :: ObjectType where "ObjectTree = 2"
definition ObjectBlob :: ObjectType where "ObjectBlob = 3"
definition ObjectTag :: ObjectType where "ObjectTag = 4"
definition ObjectOfsDelta :: ObjectType where "ObjectOfsDelta = 6"
definition ObjectRefDelta :: ObjectType where "ObjectRefDelta = 7"

text \<open>
  Modelled from the spec: \<^verbatim>\<open>TypeString2Type\<close> is not among the sources. The type-name
  table converts the lowercase tokens commit, tree, blob and tag; every other token is
  the sentinel \<open>Bad\<close>.
\<close>

definition TypeString2Type :: "bytes \<Rightarrow> ObjectType" where
  "TypeString2Type s =
     (if s = str ''commit'' then ObjectCommit
      else if s = str ''tree'' then ObjectTree
      else if s = str ''blob'' then ObjectBlob
      else if s = str ''tag'' then ObjectTag
      else ObjectBad)"

text \<open>
  Modelled from the spec: \<^verbatim>\<open>ObjectType.String\<close> is not among the sources. It is the other
  direction of the same table; a type without a name token renders as the empty string.
\<close>

definition Type2String :: "ObjectType \<Rightarrow> bytes" where
  "Type2String t =
     (if t = ObjectCommit then str ''commit''
      else if t = ObjectTree then str ''tree''
      else if t = ObjectBlob then str ''blob''
      else if t = ObjectTag then str ''tag''
      else [])"

subsection \<open>Object identifiers\<close>

text \<open>
  Modelled from the spec: \<^verbatim>\<open>Oid\<close>, \<^verbatim>\<open>NewOid\<close> and \<^verbatim>\<open>PathFormat\<close> are not among the
  sources. An Oid is a 20-byte digest whose canonical text is 40 lowercase hexadecimal
  characters; it is represented by that text. \<^verbatim>\<open>NewOid\<close> fails with \<open>InvalidFormat\<close>
  unless its input is exactly 40 hexadecimal characters of either case, and
  \<^verbatim>\<open>PathFormat\<close> splits the text into the first 2 and the remaining 38 characters.
\<close>

type_synonym Oid = string

definition is_hex :: "char \<Rightarrow> bool" where
  "is_hex c = (c \<in> set ''0123456789abcdefABCDEF'')"

definition lower_hex :: "char \<Rightarrow> char" where
  "lower_hex c =
     (if c = CHR ''A'' then CHR ''a'' else if c = CHR ''B'' then CHR ''b''
      else if c = CHR ''C'' then CHR ''c'' else if c = CHR ''D'' then CHR ''d''
      else if c = CHR ''E'' then CHR ''e'' else if c = CHR ''F'' then CHR ''f''
      else c)"

definition NewOid :: "string \<Rightarrow> Oid outcome" where
  "NewOid s =
     (if length s = 40 \<and> list_all is_hex s then Return (map lower_hex s)
      else Failure InvalidFormat)"

definition PathFormat :: "Oid \<Rightarrow> string \<times> string" where
  "PathFormat oid = (take 2 oid, drop 2 oid)"

subsection \<open>Backends, the Odb and the world outside\<close>

text \<open>
  \<^verbatim>\<open>OdbBackendLoose\<close> with the fields of the \<^verbatim>\<open>OdbBackendBase\<close> it embeds. The constructor
  also stores two permission modes and a sync flag that no operation reads; they are
  left out. The directory identity is what \<^verbatim>\<open>os.Stat\<close> returned for the directory, a
  number that two paths share exactly when they name the same physical directory.
\<close>

record OdbBackend =
  objectsDir :: string
  priority :: int
  asAlternates :: bool
  dirInfo :: "nat option"

record Odb =
  backends :: "OdbBackend list"

record OdbObject =
  Type :: ObjectType
  Data :: bytes

text \<open>
  Everything the code asks of the Go library and of the operating system is a field of
  \<open>world\<close>, so that every theorem holds whatever they answer:
  \<^item> \<open>filepath_Join\<close> is \<^verbatim>\<open>filepath.Join\<close> of two elements (the three-element call
    of the source is the two-element call applied twice);
  \<^item> \<open>stat_dir\<close> is \<^verbatim>\<open>os.Stat\<close> on an object directory: its identity, or \<open>None\<close> for
    an error;
  \<^item> \<open>open_lines\<close> is what \<^verbatim>\<open>os.Stat\<close>, \<^verbatim>\<open>os.Open\<close> and the line scanner give for a
    text file;
  \<^item> \<open>files\<close> is the content of a regular file;
  \<^item> \<open>readdirnames\<close> is \<^verbatim>\<open>os.Open\<close> followed by \<^verbatim>\<open>Readdirnames(0)\<close>: the entry
    names in directory order, or \<open>None\<close> when either fails;
  \<^item> \<open>zlib_NewReader\<close> is \<^verbatim>\<open>zlib.NewReader\<close> followed by reading the stream to its
    end: \<open>None\<close> when the stream's two-byte header is refused, otherwise the bytes
    that were decompressed before the end or the first error (\<^verbatim>\<open>io.Copy\<close>'s error
    is dropped by the source);
  \<^item> \<open>zlib_compress\<close> is the whole output of a \<^verbatim>\<open>zlib.Writer\<close>;
  \<^item> \<open>hash_object\<close> is the function \<^verbatim>\<open>hash\<close> of the repository, which is not among
    the sources.
\<close>

record world =
  filepath_Join :: "string \<Rightarrow> string \<Rightarrow> string"
  stat_dir :: "string \<Rightarrow> nat option"
  open_lines :: "string \<Rightarrow> string list access"
  files :: "string \<Rightarrow> bytes access"
  readdirnames :: "string \<Rightarrow> string list option"
  zlib_NewReader :: "bytes \<Rightarrow> bytes option"
  zlib_compress :: "bytes \<Rightarrow> bytes"
  hash_object :: "bytes \<Rightarrow> ObjectType \<Rightarrow> Oid outcome"

definition GIT_LOOSE_PRIORITY :: int where "GIT_LOOSE_PRIORITY = 1"
definition GIT_PACKED_PRIORITY :: int where "GIT_PACKED_PRIORITY = 2"
definition GIT_ALTERNATES_MAX_DEPTH :: int where "GIT_ALTERNATES_MAX_DEPTH = 5"
definition GIT_ALTERNATES_FILE :: string where "GIT_ALTERNATES_FILE = ''info/alternates''"

section \<open>The header codec (odb\_loose.go)\<close>

text \<open>\<^verbatim>\<open>isZlibCompressedData\<close> reads \<^verbatim>\<open>data[0]\<close> and \<^verbatim>\<open>data[1]\<close> before anything else; Go
  panics on an index outside the slice.\<close>

definition isZlibCompressedData :: "bytes \<Rightarrow> bool outcome" where
  "isZlibCompressedData data =
     (if length data < 2 then Panic IndexOutOfRange
      else let w = push_bit 8 (ucast (data ! 0) :: 64 word) + ucast (data ! 1)
           in Return ((data ! 0) AND 0x8F = 0x08 \<and> w mod 31 = 0))"

text \<open>
  \<^verbatim>\<open>strconv.ParseUint(s, 10, 64)\<close> of the Go library: a syntax error on the empty string
  and on any character that is not a decimal digit, a range error on a value that does
  not fit 64 bits.
\<close>

definition is_digit :: "byte \<Rightarrow> bool" where
  "is_digit b = (0x30 \<le> b \<and> b \<le> 0x39)"

definition digits_value :: "bytes \<Rightarrow> nat" where
  "digits_value s = foldl (\<lambda>acc d. 10 * acc + (unat d - 48)) 0 s"

definition ParseUint :: "bytes \<Rightarrow> 64 word option" where
  "ParseUint s =
     (if s = [] \<or> \<not> list_all is_digit s then None
      else if digits_value s < 2 ^ 64 then Some (of_nat (digits_value s))
      else None)"

text \<open>The first loop of \<^verbatim>\<open>parseObjectHeader\<close>: it returns \<^verbatim>\<open>resultType\<close>, \<^verbatim>\<open>typeEnd\<close> and
  \<^verbatim>\<open>offset\<close> as they stand when the loop is left.\<close>

function typeLoop :: "bytes \<Rightarrow> nat \<Rightarrow> ObjectType \<times> nat \<times> nat" where
  "typeLoop data offset =
     (if offset < length data then
        (if data ! offset = 0x20
         then (TypeString2Type (take offset data), offset + 1, offset + 1)
         else typeLoop data (offset + 1))
      else (ObjectBad, 0, offset))"
  by pat_completeness auto
termination
  by (relation "measure (\<lambda>(data, offset). length data - offset)") auto

text \<open>The second loop: the size and the offset when the loop is left, or the error of
  \<^verbatim>\<open>ParseUint\<close>.\<close>

function sizeLoop :: "bytes \<Rightarrow> nat \<Rightarrow> nat \<Rightarrow> (64 word \<times> nat) outcome" where
  "sizeLoop data typeEnd offset =
     (if offset < length data then
        (if data ! offset = 0
         then (case ParseUint (drop typeEnd (take offset data)) of
                 None \<Rightarrow> Failure Corrupt
               | Some sz \<Rightarrow> Return (sz, offset + 1))
         else sizeLoop data typeEnd (offset + 1))
      else Return (0, offset))"
  by pat_completeness auto
termination
  by (relation "measure (\<lambda>(data, typeEnd, offset). length data - offset)") auto

definition parseObjectHeader :: "bytes \<Rightarrow> (ObjectType \<times> 64 word \<times> nat) outcome" where
  "parseObjectHeader data =
     (case typeLoop data 0 of
        (resultType, typeEnd, offset) \<Rightarrow>
          (case sizeLoop data typeEnd offset of
             Return (sz, offset') \<Rightarrow> Return (resultType, sz, offset')
           | Failure e \<Rightarrow> Failure e
           | Panic p \<Rightarrow> Panic p))"

text \<open>
  The loop of \<^verbatim>\<open>parseBinaryObjectHeader\<close>. The variable \<^verbatim>\<open>c\<close> is assigned once, before
  the loop, and the loop increments \<^verbatim>\<open>offset\<close> before it reads \<^verbatim>\<open>data[offset]\<close>; the
  read panics when the incremented offset is outside the slice. \<^verbatim>\<open>shift\<close> is an
  unsigned machine integer, and a shift by 64 or more gives 0, as \<open>push_bit\<close> on a
  64-bit word does.
\<close>

function binaryHeaderLoop ::
  "bytes \<Rightarrow> byte \<Rightarrow> ObjectType \<Rightarrow> 64 word \<Rightarrow> 64 word \<Rightarrow> nat \<Rightarrow> (ObjectType \<times> 64 word \<times> nat) outcome"
where
  "binaryHeaderLoop data c resultType sz shift offset =
     (if c AND 0x80 \<noteq> 0 then
        (if length data \<le> offset then Failure Corrupt
         else if length data \<le> offset + 1 then Panic IndexOutOfRange
         else binaryHeaderLoop data c resultType
                (sz + push_bit (unat shift) ((ucast (data ! (offset + 1))) AND 0x7f))
                (shift + 7) (offset + 1))
      else Return (resultType, sz, offset))"
  by pat_completeness auto
termination
  by (relation "measure (\<lambda>(data, c, resultType, sz, shift, offset). length data - offset)") auto

definition parseBinaryObjectHeader :: "bytes \<Rightarrow> (ObjectType \<times> 64 word \<times> nat) outcome" where
  "parseBinaryObjectHeader data =
     (if length data = 0 then Failure Corrupt
      else let c = data ! 0;
               resultType = uint ((drop_bit 4 c) AND 7);
               sz = ucast (c AND 15)
           in binaryHeaderLoop data c resultType sz 4 1)"

section \<open>The loose backend (odb\_loose.go)\<close>

definition NewOdbBackendLoose :: "string \<Rightarrow> OdbBackend" where
  "NewOdbBackendLoose dir =
     \<lparr>objectsDir = dir, priority = 0, asAlternates = False, dirInfo = None\<rparr>"

text \<open>
  Modelled from the spec: \<^verbatim>\<open>InitBackend\<close> and \<^verbatim>\<open>SameDirectory\<close> belong to
  \<^verbatim>\<open>OdbBackendBase\<close>, which is not among the sources. The first stores the descriptor
  (priority, alternates flag, directory identity); the second is the identity check
  against the stored directory identity.
\<close>

definition InitBackend :: "OdbBackend \<Rightarrow> int \<Rightarrow> bool \<Rightarrow> nat \<Rightarrow> OdbBackend" where
  "InitBackend backend prio alt info =
     backend\<lparr>priority := prio, asAlternates := alt, dirInfo := Some info\<rparr>"

definition SameDirectory :: "OdbBackend \<Rightarrow> nat \<Rightarrow> bool" where
  "SameDirectory backend info = (dirInfo backend = Some info)"

definition object_path :: "world \<Rightarrow> OdbBackend \<Rightarrow> Oid \<Rightarrow> string" where
  "object_path w backend oid =
     (case PathFormat oid of
        (dirName, fileName) \<Rightarrow>
          filepath_Join w (filepath_Join w (objectsDir backend) dirName) fileName)"

definition Loose_Read :: "world \<Rightarrow> OdbBackend \<Rightarrow> Oid \<Rightarrow> OdbObject outcome" where
  "Loose_Read w backend oid =
     (case files w (object_path w backend oid) of
        Found content \<Rightarrow>
          (case isZlibCompressedData content of
             Return True \<Rightarrow>
               (case zlib_NewReader w content of
                  None \<Rightarrow> Failure Corrupt
                | Some data \<Rightarrow>
                    (case parseObjectHeader data of
                       Return (objType, sz, offset) \<Rightarrow>
                         Return \<lparr>Type = objType, Data = drop offset data\<rparr>
                     | Failure e \<Rightarrow> Failure e
                     | Panic p \<Rightarrow> Panic p))
           | Return False \<Rightarrow>
               (case parseBinaryObjectHeader content of
                  Return (objType, sz, offset) \<Rightarrow>
                    (case zlib_NewReader w (drop offset content) of
                       None \<Rightarrow> Panic NilDereference
                     | Some data \<Rightarrow> Return \<lparr>Type = objType, Data = data\<rparr>)
                | Failure e \<Rightarrow> Failure e
                | Panic p \<Rightarrow> Panic p)
           | Failure e \<Rightarrow> Failure e
           | Panic p \<Rightarrow> Panic p)
      | NotExist \<Rightarrow> Failure IOError
      | Inaccessible \<Rightarrow> Failure IOError)"

text \<open>In the compact branch of \<^verbatim>\<open>Read\<close> the statement \<^verbatim>\<open>defer reader.Close()\<close> stands before
  the error check: when \<^verbatim>\<open>zlib.NewReader\<close> fails, \<^verbatim>\<open>reader\<close> is a nil interface and the
  method value panics.\<close>

text \<open>\<^verbatim>\<open>ReadHeader\<close>: \<^verbatim>\<open>io.CopyN(&buffer, reader, 64)\<close> takes the first 64 bytes of the
  decompressed stream, or all of it when it is shorter.\<close>

definition Loose_ReadHeader :: "world \<Rightarrow> OdbBackend \<Rightarrow> Oid \<Rightarrow> (ObjectType \<times> 64 word) outcome" where
  "Loose_ReadHeader w backend oid =
     (case files w (object_path w backend oid) of
        Found content \<Rightarrow>
          (case isZlibCompressedData content of
             Return True \<Rightarrow>
               (case zlib_NewReader w content of
                  None \<Rightarrow> Failure Corrupt
                | Some stream \<Rightarrow>
                    (case parseObjectHeader (take 64 stream) of
                       Return (objType, sz, offset) \<Rightarrow> Return (objType, sz)
                     | Failure e \<Rightarrow> Failure e
                     | Panic p \<Rightarrow> Panic p))
           | Return False \<Rightarrow>
               (case parseBinaryObjectHeader content of
                  Return (objType, sz, offset) \<Rightarrow> Return (objType, sz)
                | Failure e \<Rightarrow> Failure e
                | Panic p \<Rightarrow> Panic p)
           | Failure e \<Rightarrow> Failure e
           | Panic p \<Rightarrow> Panic p)
      | NotExist \<Rightarrow> Failure IOError
      | Inaccessible \<Rightarrow> Failure IOError)"

text \<open>\<^verbatim>\<open>Exists\<close> is \<^verbatim>\<open>!os.IsNotExist(err)\<close>: false only when the path is not there.\<close>

definition Loose_Exists :: "world \<Rightarrow> OdbBackend \<Rightarrow> Oid \<Rightarrow> bool" where
  "Loose_Exists w backend oid = (files w (object_path w backend oid) \<noteq> NotExist)"

definition HasPrefix :: "string \<Rightarrow> string \<Rightarrow> bool" where
  "HasPrefix s pre = (take (length pre) s = pre)"

text \<open>The loop of \<^verbatim>\<open>ExistsPrefix\<close> over the names of the bucket, with its two variables
  \<^verbatim>\<open>found\<close> and \<^verbatim>\<open>foundId\<close>.\<close>

fun prefixLoop :: "string \<Rightarrow> string list \<Rightarrow> nat \<Rightarrow> string \<Rightarrow> nat \<times> string" where
  "prefixLoop pre [] found foundId = (found, foundId)"
| "prefixLoop pre (dirChildName # rest) found foundId =
     (if HasPrefix dirChildName pre then prefixLoop pre rest (found + 1) dirChildName
      else prefixLoop pre rest found foundId)"

text \<open>\<^verbatim>\<open>fileName[:length-2]\<close> panics when \<^verbatim>\<open>length-2\<close> is negative or beyond the end of
  the file name.\<close>

definition Loose_ExistsPrefix :: "world \<Rightarrow> OdbBackend \<Rightarrow> Oid \<Rightarrow> int \<Rightarrow> Oid outcome" where
  "Loose_ExistsPrefix w backend oid len =
     (case PathFormat oid of
        (dirName, fileName) \<Rightarrow>
          if len - 2 < 0 \<or> int (length fileName) < len - 2 then Panic SliceBoundsOutOfRange
          else
            (case readdirnames w (filepath_Join w (objectsDir backend) dirName) of
               None \<Rightarrow> Failure IOError
             | Some dirChildNames \<Rightarrow>
                 (case prefixLoop (take (nat (len - 2)) fileName) dirChildNames 0 [] of
                    (found, foundId) \<Rightarrow>
                      if found = 0 then Failure NotFound
                      else if found = 1 then NewOid (dirName @ foundId)
                      else Failure Ambiguous)))"

definition Loose_ReadPrefix :: "world \<Rightarrow> OdbBackend \<Rightarrow> Oid \<Rightarrow> int \<Rightarrow> (Oid \<times> OdbObject) outcome" where
  "Loose_ReadPrefix w backend oid len =
     (case Loose_ExistsPrefix w backend oid len of
        Return foundId \<Rightarrow>
          (case Loose_Read w backend foundId of
             Return obj \<Rightarrow> Return (foundId, obj)
           | Failure e \<Rightarrow> Failure e
           | Panic p \<Rightarrow> Panic p)
      | Failure e \<Rightarrow> Failure e
      | Panic p \<Rightarrow> Panic p)"

text \<open>\<^verbatim>\<open>fmt.Fprintf(writer, "%s %d\x00", ...)\<close>: the decimal digits of the payload length.\<close>

definition digit :: "nat \<Rightarrow> byte" where
  "digit d = of_nat (48 + d)"

function decimal :: "nat \<Rightarrow> bytes" where
  "decimal n = (if n < 10 then [digit n] else decimal (n div 10) @ [digit (n mod 10)])"
  by pat_completeness auto
termination
  by (relation "measure (\<lambda>n. n)") auto

definition object_header :: "ObjectType \<Rightarrow> nat \<Rightarrow> bytes" where
  "object_header objType n = Type2String objType @ [0x20] @ decimal n @ [0]"

text \<open>
  \<^verbatim>\<open>os.MkdirAll\<close> of the bucket directory: when the bucket cannot be listed it is created
  empty and its name is added to the entries of the object directory; its error is
  dropped by the source.
\<close>

definition MkdirAll :: "world \<Rightarrow> string \<Rightarrow> string \<Rightarrow> world" where
  "MkdirAll w dir name =
     (case readdirnames w (filepath_Join w dir name) of
        Some entries \<Rightarrow> w
      | None \<Rightarrow>
          w\<lparr>readdirnames := (readdirnames w)
               (dir := Some ((case readdirnames w dir of None \<Rightarrow> [] | Some ns \<Rightarrow> ns) @ [name]),
                filepath_Join w dir name := Some [])\<rparr>)"

text \<open>
  \<^verbatim>\<open>Write\<close> opens the destination with \<^verbatim>\<open>os.OpenFile(path, os.O_WRONLY, mode)\<close>: the flags
  neither create nor truncate. When the file is not there the call fails, the error is
  dropped, and every write through the nil file fails; when it is there the compressed
  envelope replaces its first bytes. \<^verbatim>\<open>Write\<close> returns the Oid either way.
\<close>

definition Loose_Write :: "world \<Rightarrow> OdbBackend \<Rightarrow> bytes \<Rightarrow> ObjectType \<Rightarrow> Oid outcome \<times> world" where
  "Loose_Write w backend data objType =
     (case hash_object w data objType of
        Return oid \<Rightarrow>
          (case PathFormat oid of
             (dirName, fileName) \<Rightarrow>
               let dirPath = filepath_Join w (objectsDir backend) dirName;
                   w1 = MkdirAll w (objectsDir backend) dirName;
                   dest = filepath_Join w dirPath fileName;
                   envelope = zlib_compress w (object_header objType (length data) @ data)
               in (case files w1 dest of
                     Found old \<Rightarrow>
                       (Return oid,
                        w1\<lparr>files := (files w1)(dest := Found (envelope @ drop (length envelope) old))\<rparr>)
                   | NotExist \<Rightarrow> (Return oid, w1)
                   | Inaccessible \<Rightarrow> (Return oid, w1)))
      | Failure e \<Rightarrow> (Failure e, w)
      | Panic p \<Rightarrow> (Panic p, w))"

text \<open>
  \<^verbatim>\<open>ForEach\<close>. The callback is a Go closure: it may keep state, so it takes and returns a
  state \<open>'s\<close> besides its error (\<open>None\<close> for nil).
\<close>

fun forEachChild ::
  "(Oid \<Rightarrow> 's \<Rightarrow> error option \<times> 's) \<Rightarrow> string \<Rightarrow> string list \<Rightarrow> 's \<Rightarrow> unit outcome \<times> 's" where
  "forEachChild callback dirName [] s = (Return (), s)"
| "forEachChild callback dirName (childItem # rest) s =
     (if length childItem \<noteq> 38 then forEachChild callback dirName rest s
      else
        (case NewOid (dirName @ childItem) of
           Return oid \<Rightarrow>
             (case callback oid s of
                (Some e, s') \<Rightarrow> (Failure e, s')
              | (None, s') \<Rightarrow> forEachChild callback dirName rest s')
         | Failure e \<Rightarrow> (Failure e, s)
         | Panic p \<Rightarrow> (Panic p, s)))"

fun forEachDir ::
  "world \<Rightarrow> OdbBackend \<Rightarrow> (Oid \<Rightarrow> 's \<Rightarrow> error option \<times> 's) \<Rightarrow> string list \<Rightarrow> 's \<Rightarrow> unit outcome \<times> 's" where
  "forEachDir w backend callback [] s = (Return (), s)"
| "forEachDir w backend callback (dirName # rest) s =
     (if length dirName \<noteq> 2 then forEachDir w backend callback rest s
      else
        (case readdirnames w (filepath_Join w (objectsDir backend) dirName) of
           None \<Rightarrow> (Failure IOError, s)
         | Some childItems \<Rightarrow>
             (case forEachChild callback dirName childItems s of
                (Return u, s') \<Rightarrow> forEachDir w backend callback rest s'
              | (Failure e, s') \<Rightarrow> (Failure e, s')
              | (Panic p, s') \<Rightarrow> (Panic p, s'))))"

definition Loose_ForEach ::
  "world \<Rightarrow> OdbBackend \<Rightarrow> (Oid \<Rightarrow> 's \<Rightarrow> error option \<times> 's) \<Rightarrow> 's \<Rightarrow> unit outcome \<times> 's" where
  "Loose_ForEach w backend callback s =
     (case readdirnames w (objectsDir backend) of
        None \<Rightarrow> (Failure IOError, s)
      | Some dirNames \<Rightarrow> forEachDir w backend callback dirNames s)"

section \<open>The backend-chain dispatcher (odb.go)\<close>

text \<open>
  The iterations of \<^verbatim>\<open>Exists\<close>, \<^verbatim>\<open>Read\<close>, \<^verbatim>\<open>ReadPrefix\<close> and \<^verbatim>\<open>ReadHeader\<close> over
  \<^verbatim>\<open>o.backends\<close>. A backend's error sends the loop to the next backend; a panic is not
  an error value and leaves the loop.
\<close>

fun existsLoop :: "world \<Rightarrow> OdbBackend list \<Rightarrow> Oid \<Rightarrow> bool" where
  "existsLoop w [] oid = False"
| "existsLoop w (backend # rest) oid =
     (if Loose_Exists w backend oid then True else existsLoop w rest oid)"

definition Odb_Exists :: "world \<Rightarrow> Odb \<Rightarrow> Oid \<Rightarrow> bool" where
  "Odb_Exists w odb oid = existsLoop w (backends odb) oid"

fun readLoop :: "world \<Rightarrow> OdbBackend list \<Rightarrow> Oid \<Rightarrow> OdbObject outcome" where
  "readLoop w [] oid = Failure NotFound"
| "readLoop w (backend # rest) oid =
     (case Loose_Read w backend oid of
        Return odbObject \<Rightarrow> Return odbObject
      | Failure e \<Rightarrow> readLoop w rest oid
      | Panic p \<Rightarrow> Panic p)"

definition Odb_Read :: "world \<Rightarrow> Odb \<Rightarrow> Oid \<Rightarrow> OdbObject outcome" where
  "Odb_Read w odb oid = readLoop w (backends odb) oid"

fun readPrefixLoop :: "world \<Rightarrow> OdbBackend list \<Rightarrow> Oid \<Rightarrow> int \<Rightarrow> (Oid \<times> OdbObject) outcome" where
  "readPrefixLoop w [] oid len = Failure NotFound"
| "readPrefixLoop w (backend # rest) oid len =
     (case Loose_ReadPrefix w backend oid len of
        Return found \<Rightarrow> Return found
      | Failure e \<Rightarrow> readPrefixLoop w rest oid len
      | Panic p \<Rightarrow> Panic p)"

definition Odb_ReadPrefix :: "world \<Rightarrow> Odb \<Rightarrow> Oid \<Rightarrow> int \<Rightarrow> (Oid \<times> OdbObject) outcome" where
  "Odb_ReadPrefix w odb oid len = readPrefixLoop w (backends odb) oid len"

fun readHeaderLoop :: "world \<Rightarrow> OdbBackend list \<Rightarrow> Oid \<Rightarrow> (ObjectType \<times> 64 word) outcome" where
  "readHeaderLoop w [] oid = Failure NotFound"
| "readHeaderLoop w (backend # rest) oid =
     (case Loose_ReadHeader w backend oid of
        Return header \<Rightarrow> Return header
      | Failure e \<Rightarrow> readHeaderLoop w rest oid
      | Panic p \<Rightarrow> Panic p)"

definition Odb_ReadHeader :: "world \<Rightarrow> Odb \<Rightarrow> Oid \<Rightarrow> (ObjectType \<times> 64 word) outcome" where
  "Odb_ReadHeader w odb oid = readHeaderLoop w (backends odb) oid"

subsection \<open>Registration\<close>

text \<open>
  Modelled from the spec: \<^verbatim>\<open>addBackendInternal\<close> sorts with \<^verbatim>\<open>sort.Sort(backends)\<close>, where
  the type \<^verbatim>\<open>OdbBackends\<close> and its \<^verbatim>\<open>Len\<close>, \<^verbatim>\<open>Less\<close> and \<^verbatim>\<open>Swap\<close> are not among the sources.
  The order is ascending priority. \<^verbatim>\<open>sort.Sort\<close> belongs to the Go library, which promises a
  sorted permutation and no stability; the model is the insertion sort the library runs
  on short slices: each element in turn is swapped towards the front while it is
  \<^verbatim>\<open>Less\<close> than its predecessor. \<open>sink\<close> works on the prefix before the element, last
  element first.
\<close>

definition Less :: "OdbBackend \<Rightarrow> OdbBackend \<Rightarrow> bool" where
  "Less a b = (priority a < priority b)"

fun sink :: "OdbBackend \<Rightarrow> OdbBackend list \<Rightarrow> OdbBackend list" where
  "sink x [] = [x]"
| "sink x (y # ys) = (if Less x y then y # sink x ys else x # y # ys)"

definition sort_Sort :: "OdbBackend list \<Rightarrow> OdbBackend list" where
  "sort_Sort data = rev (foldl (\<lambda>done x. sink x done) [] data)"

definition addBackendInternal :: "Odb \<Rightarrow> OdbBackend \<Rightarrow> int \<Rightarrow> bool \<Rightarrow> nat \<Rightarrow> Odb" where
  "addBackendInternal odb backend prio alt info =
     odb\<lparr>backends := sort_Sort (backends odb @ [InitBackend backend prio alt info])\<rparr>"


subsection \<open>Default backends and alternates\<close>

text \<open>
  \<^verbatim>\<open>AddDefaultBackends\<close> and \<^verbatim>\<open>loadAlternates\<close> call each other; \<open>scanLines\<close> is the
  scanner loop of \<^verbatim>\<open>loadAlternates\<close>. The Odb is passed in and returned, beside the
  error (\<open>None\<close> for nil). \<^verbatim>\<open>AddDefaultBackends\<close> drops the error of \<^verbatim>\<open>loadAlternates\<close>.
\<close>

function AddDefaultBackends :: "world \<Rightarrow> Odb \<Rightarrow> string \<Rightarrow> bool \<Rightarrow> int \<Rightarrow> error option \<times> Odb"
  and loadAlternates :: "world \<Rightarrow> Odb \<Rightarrow> string \<Rightarrow> int \<Rightarrow> error option \<times> Odb"
  and scanLines :: "world \<Rightarrow> Odb \<Rightarrow> string \<Rightarrow> int \<Rightarrow> string list \<Rightarrow> error option \<times> Odb"
where
  "AddDefaultBackends w odb dir alt alternateDepth =
     (case stat_dir w dir of
        None \<Rightarrow> (Some IOError, odb)
      | Some info \<Rightarrow>
          if list_ex (\<lambda>backend. SameDirectory backend info) (backends odb) then (None, odb)
          else (None, snd (loadAlternates w
                  (addBackendInternal odb (NewOdbBackendLoose dir) GIT_LOOSE_PRIORITY alt info)
                  dir alternateDepth)))"
| "loadAlternates w odb dir alternateDepth =
     (if alternateDepth > GIT_ALTERNATES_MAX_DEPTH then (None, odb)
      else
        (case open_lines w (filepath_Join w dir GIT_ALTERNATES_FILE) of
           NotExist \<Rightarrow> (None, odb)
         | Inaccessible \<Rightarrow> (Some IOError, odb)
         | Found lines \<Rightarrow> scanLines w odb dir alternateDepth lines))"
| "scanLines w odb dir alternateDepth [] = (None, odb)"
| "scanLines w odb dir alternateDepth (line # rest) =
     (if length line = 0 \<or> hd line = CHR ''#'' then scanLines w odb dir alternateDepth rest
      else if hd line = CHR ''.'' \<and> alternateDepth > 0 then
        (case AddDefaultBackends w odb (filepath_Join w dir line) True (alternateDepth + 1) of
           (Some e, odb') \<Rightarrow> (Some e, odb')
         | (None, odb') \<Rightarrow> scanLines w odb' dir alternateDepth rest)
      else scanLines w odb dir alternateDepth rest)"
  by pat_completeness auto
termination
  by (relation "measures
        [\<lambda>x. case x of
           Inl (w, odb, dir, alt, d) \<Rightarrow> 3 * nat (6 - d) + 1
         | Inr (Inl (w, odb, dir, d)) \<Rightarrow> 3 * nat (6 - d)
         | Inr (Inr (w, odb, dir, d, ls)) \<Rightarrow> 3 * nat (6 - (d + 1)) + 2,
         \<lambda>x. case x of
           Inl (w, odb, dir, alt, d) \<Rightarrow> 0
         | Inr (Inl (w, odb, dir, d)) \<Rightarrow> 0
         | Inr (Inr (w, odb, dir, d, ls)) \<Rightarrow> length ls]")
    (auto simp: GIT_ALTERNATES_MAX_DEPTH_def)

definition OdbOpen :: "world \<Rightarrow> string \<Rightarrow> error option \<times> Odb" where
  "OdbOpen w dir = AddDefaultBackends w \<lparr>backends = []\<rparr> dir False 0"

section \<open>Notions used to state the properties\<close>

text \<open>A call failed when it returned an error value.\<close>

definition failed :: "'a outcome \<Rightarrow> bool" where
  "failed r = (case r of Failure e \<Rightarrow> True | Return x \<Rightarrow> False | Panic p \<Rightarrow> False)"


text \<open>A directory identity is registered in an Odb when one of its backends answers
  \<^verbatim>\<open>SameDirectory\<close> for it.\<close>

definition registered :: "Odb \<Rightarrow> nat \<Rightarrow> bool" where
  "registered odb info = list_ex (\<lambda>backend. SameDirectory backend info) (backends odb)"

text \<open>The entries of a bucket that \<^verbatim>\<open>ExistsPrefix\<close> counts for a prefix of \<open>len\<close>
  characters of the Oid.\<close>

definition prefix_matches :: "Oid \<Rightarrow> int \<Rightarrow> string list \<Rightarrow> string list" where
  "prefix_matches oid len names =
     filter (\<lambda>n. HasPrefix n (take (nat (len - 2)) (drop 2 oid))) names"

text \<open>
  Enumeration as the design document words it: the objects of a store are the entries
  with a 2-character directory name and a 38-character file name, in listing order; the
  visitor is invoked on each in turn, and its first error ends the enumeration and is the
  result.
\<close>

fun visit_in_order :: "(Oid \<Rightarrow> 's \<Rightarrow> error option \<times> 's) \<Rightarrow> Oid list \<Rightarrow> 's \<Rightarrow> unit outcome \<times> 's" where
  "visit_in_order visitor [] s = (Return (), s)"
| "visit_in_order visitor (oid # rest) s =
     (case visitor oid s of
        (Some e, s') \<Rightarrow> (Failure e, s')
      | (None, s') \<Rightarrow> visit_in_order visitor rest s')"

definition bucket_objects :: "world \<Rightarrow> OdbBackend \<Rightarrow> string \<Rightarrow> Oid list" where
  "bucket_objects w backend dirName =
     (case readdirnames w (filepath_Join w (objectsDir backend) dirName) of
        None \<Rightarrow> []
      | Some childItems \<Rightarrow>
          map (\<lambda>childItem. map lower_hex (dirName @ childItem))
            (filter (\<lambda>childItem. length childItem = 38) childItems))"

definition loose_objects :: "world \<Rightarrow> OdbBackend \<Rightarrow> string list \<Rightarrow> Oid list" where
  "loose_objects w backend dirNames =
     concat (map (bucket_objects w backend) (filter (\<lambda>dirName. length dirName = 2) dirNames))"

text \<open>A bucket is in order when it can be listed and each of its 38-character names,
  after the bucket's name, is hexadecimal.\<close>

definition bucket_ok :: "world \<Rightarrow> OdbBackend \<Rightarrow> string \<Rightarrow> bool" where
  "bucket_ok w backend dirName =
     (case readdirnames w (filepath_Join w (objectsDir backend) dirName) of
        None \<Rightarrow> False
      | Some childItems \<Rightarrow>
          list_all (\<lambda>childItem. list_all is_hex (dirName @ childItem))
            (filter (\<lambda>childItem. length childItem = 38) childItems))"

text \<open>A visitor that keeps the list of the Oids it was invoked on and answers with a
  fixed verdict for each Oid.\<close>

definition recording :: "(Oid \<Rightarrow> error option) \<Rightarrow> Oid \<Rightarrow> Oid list \<Rightarrow> error option \<times> Oid list" where
  "recording verdict oid visited = (verdict oid, visited @ [oid])"

text \<open>Two verdicts: no Oid is rejected, every Oid is rejected.\<close>

definition accepting :: "Oid \<Rightarrow> error option" where
  "accepting oid = None"

definition rejecting :: "Oid \<Rightarrow> error option" where
  "rejecting oid = Some Corrupt"

text \<open>
  Stored objects, as the design document describes the two on-disk variants. The legacy
  variant is one compressed stream of the header \<open>type-name, space, decimal size, NUL\<close>
  followed by the payload. The compact variant starts with an uncompressed header whose
  first byte has the type in bits 4 to 6 and the low bits of the size in bits 0 to 3;
  \<open>compact_object\<close> is the case where the top bit is clear, so that the header is that one
  byte, and the rest of the file is the compressed payload.
\<close>

definition named_type :: "ObjectType \<Rightarrow> bool" where
  "named_type t = (t = ObjectCommit \<or> t = ObjectTree \<or> t = ObjectBlob \<or> t = ObjectTag)"

definition legacy_object :: "world \<Rightarrow> bytes \<Rightarrow> ObjectType \<Rightarrow> bytes \<Rightarrow> bool" where
  "legacy_object w content t payload =
     (isZlibCompressedData content = Return True \<and> named_type t \<and> length payload < 2 ^ 63 \<and>
      zlib_NewReader w content = Some (object_header t (length payload) @ payload))"


section \<open>An example store\<close>

text \<open>
  One concrete world, used where a statement is tried on an input. Its zlib is the part
  of zlib that stores without compressing: a stream is the two bytes \<open>78 01\<close>, one
  stored block (five bytes of block header, then the data) and the four bytes of the
  Adler-32 checksum.
\<close>

definition adler32 :: "bytes \<Rightarrow> nat \<times> nat" where
  "adler32 d =
     foldl (\<lambda>(a, b) x. ((a + unat x) mod 65521, (b + (a + unat x) mod 65521) mod 65521)) (1, 0) d"

definition stored_deflate :: "bytes \<Rightarrow> bytes" where
  "stored_deflate d =
     [0x78, 0x01, 0x01,
      of_nat (length d mod 256), of_nat (length d div 256),
      of_nat (255 - length d mod 256), of_nat (255 - length d div 256)] @ d @
     (case adler32 d of
        (a, b) \<Rightarrow> [of_nat (b div 256), of_nat (b mod 256), of_nat (a div 256), of_nat (a mod 256)])"

definition stored_inflate :: "bytes \<Rightarrow> bytes option" where
  "stored_inflate c = (if length c < 11 then None else Some (take (length c - 11) (drop 7 c)))"

definition hello_oid :: Oid where
  "hello_oid = ''b6fc4c620b67d95f953a5c1c1230aaab5db5a1b0''"

definition name_a :: string where
  "name_a = ''cd000000000000000000000000000000000001''"

definition name_b :: string where
  "name_b = ''ce000000000000000000000000000000000002''"

definition stray_name :: string where
  "stray_name = ''README_this_name_has_38_characters.txt''"

text \<open>The file of the blob \<open>hello\<close> in the legacy variant: the bytes zlib writes for
  \<open>blob 5\<close>, NUL, \<open>hello\<close> at compression level 0.\<close>

definition hello_file :: bytes where
  "hello_file =
     [120, 1, 1, 12, 0, 243, 255, 98, 108, 111, 98, 32, 53, 0, 104, 101, 108, 108, 111, 25, 170, 4, 9]"

text \<open>
  The store \<open>objs\<close> has the bucket \<open>ab\<close> with two objects, of which the first file is
  cut off after one byte, the bucket \<open>b6\<close> with a leftover temporary file, and an
  alternates file that names the store \<open>../alt\<close>, where the blob \<open>hello\<close> is stored.
  The directory \<open>stray\<close> has a bucket with a 38-character name that is not hexadecimal.
  The hash function of the example answers for the one payload that is written in it,
  with the SHA-1 of \<open>blob 5\<close>, NUL, \<open>hello\<close>.
\<close>

definition example_store :: world where
  "example_store =
     \<lparr>filepath_Join = (\<lambda>a b. a @ ''/'' @ b),
      stat_dir = (\<lambda>p. if p = ''objs'' then Some 1 else if p = ''objs/../alt'' then Some 2 else None),
      open_lines = (\<lambda>p. if p = ''objs/info/alternates''
                          then Found [''# objects of the upstream repository'', [], ''../alt'']
                          else NotExist),
      files = (\<lambda>p. if p = ''objs/../alt/b6/fc4c620b67d95f953a5c1c1230aaab5db5a1b0'' then Found hello_file
                     else if p = ''objs/ab/cd000000000000000000000000000000000001'' then Found [0x78]
                     else NotExist),
      readdirnames = (\<lambda>p. if p = ''objs'' then Some [''ab'', ''info'', ''b6'', ''pack'']
                            else if p = ''objs/ab'' then Some [name_a, name_b]
                            else if p = ''objs/b6'' then Some [''tmp_obj_0a1b2c'']
                            else if p = ''objs/info'' then Some [''alternates'']
                            else if p = ''stray'' then Some [''ab'']
                            else if p = ''stray/ab'' then Some [stray_name, name_a]
                            else None),
      zlib_NewReader = stored_inflate,
      zlib_compress = stored_deflate,
      hash_object = (\<lambda>data t. if data = str ''hello'' \<and> t = ObjectBlob then Return hello_oid
                               else Failure InvalidFormat)\<rparr>"

definition objs_backend :: OdbBackend where
  "objs_backend = InitBackend (NewOdbBackendLoose ''objs'') GIT_LOOSE_PRIORITY False 1"

definition alt_backend :: OdbBackend where
  "alt_backend = InitBackend (NewOdbBackendLoose ''objs/../alt'') GIT_LOOSE_PRIORITY True 2"

definition stray_backend :: OdbBackend where
  "stray_backend = InitBackend (NewOdbBackendLoose ''stray'') GIT_LOOSE_PRIORITY False 3"

section \<open>The compact header decoder\<close>

declare binaryHeaderLoop.simps [simp del] typeLoop.simps [simp del] sizeLoop.simps [simp del]
declare decimal.simps [simp del]
declare AddDefaultBackends.simps [simp del] loadAlternates.simps [simp del]

text \<open>Once the first byte has its top bit set the loop condition never changes: the loop
  runs until the read of \<^verbatim>\<open>data[offset]\<close> leaves the slice.\<close>

lemma binaryHeaderLoop_continuation:
  "c AND 0x80 \<noteq> 0 \<Longrightarrow> offset < length data \<Longrightarrow>
   binaryHeaderLoop data c t s sh offset = Panic IndexOutOfRange"
proof (induction data c t s sh offset rule: binaryHeaderLoop.induct)
  case (1 data c resultType sz shift offset)
  show ?case
  proof (cases "length data \<le> offset + 1")
    case True
    with 1(2,3) show ?thesis by (subst binaryHeaderLoop.simps) simp
  next
    case False
    with 1 show ?thesis by (subst binaryHeaderLoop.simps) simp
  qed
qed

lemma parseBinaryObjectHeader_continuation:
  "data \<noteq> [] \<Longrightarrow> (data ! 0) AND 0x80 \<noteq> 0 \<Longrightarrow>
   parseBinaryObjectHeader data = (if length data = 1 then Failure Corrupt else Panic IndexOutOfRange)"
  apply (cases "length data = 1")
   apply (simp add: parseBinaryObjectHeader_def Let_def binaryHeaderLoop.simps)
  apply (simp add: parseBinaryObjectHeader_def Let_def)
  apply (rule binaryHeaderLoop_continuation)
   apply simp
  apply (cases data; simp)
  done


text \<open>
  Claim C1. The claim: the decoder takes the type from bits 4 to 6 and the low size bits
  from bits 0 to 3 of the first byte, lets every byte after a byte with the top bit set
  contribute 7 more bits, and stops at the first byte with the top bit clear, returning
  the offset after it. On the two-byte header \<open>95 01\<close> (commit, size 21) followed by the
  start of a compressed stream, that is the answer (commit, 21, 2); the code panics with
  an index out of range instead.
\<close>

theorem binary_header_continuation_panics:
  "parseBinaryObjectHeader [0x95, 0x01, 0x78, 0x9C] = Panic IndexOutOfRange"
  by (simp add: parseBinaryObjectHeader_continuation)

section \<open>Files shorter than two bytes\<close>

text \<open>
  Claim C10. \<^verbatim>\<open>isZlibCompressedData\<close> reads bytes 0 and 1 unconditionally, so for an object
  file shorter than 2 bytes \<^verbatim>\<open>Read\<close> and \<^verbatim>\<open>ReadHeader\<close> of the loose backend panic with an
  index out of range instead of returning an error.
\<close>

theorem short_file_panics:
  "files w (object_path w backend oid) = Found content \<Longrightarrow> length content < 2 \<Longrightarrow>
   isZlibCompressedData content = Panic IndexOutOfRange \<and>
   Loose_Read w backend oid = Panic IndexOutOfRange \<and>
   Loose_ReadHeader w backend oid = Panic IndexOutOfRange"
  by (simp add: Loose_Read_def Loose_ReadHeader_def isZlibCompressedData_def)

theorem short_file_panics_witness:
  "files example_store (object_path example_store objs_backend (''ab'' @ name_a)) = Found [0x78] \<and>
   length [0x78 :: byte] < 2 \<and>
   Loose_Read example_store objs_backend (''ab'' @ name_a) = Panic IndexOutOfRange \<and>
   Loose_ReadHeader example_store objs_backend (''ab'' @ name_a) = Panic IndexOutOfRange"
proof -
  have f: "files example_store (object_path example_store objs_backend (''ab'' @ name_a)) = Found [0x78]"
    by (simp add: example_store_def object_path_def PathFormat_def objs_backend_def InitBackend_def
        NewOdbBackendLoose_def name_a_def)
  have l: "length [0x78 :: byte] < 2" by simp
  from short_file_panics [OF f l] f l show ?thesis by simp
qed

section \<open>The order of the backend list\<close>

lemma set_sink: "set (sink x ys) = insert x (set ys)"
  by (induction ys) auto





lemma foldl_sink_set:
  "set (foldl (\<lambda>done x. sink x done) acc data) = set acc \<union> set data"
  by (induction data arbitrary: acc) (auto simp: set_sink)



lemma sort_Sort_set: "set (sort_Sort data) = set data"
  by (simp add: sort_Sort_def foldl_sink_set)




section \<open>First success over the backend chain\<close>

text \<open>The three read iterations of the dispatcher have one shape; the two facts about that
  shape are proved once, for any loop that satisfies the two equations.\<close>

lemma chain_all_failed:
  assumes nil: "loop [] = Failure NotFound"
    and cons: "\<And>b bs. loop (b # bs) =
      (case f b of Return x \<Rightarrow> Return x | Failure e \<Rightarrow> loop bs | Panic p \<Rightarrow> Panic p)"
  shows "loop bs = Failure e \<longleftrightarrow> e = NotFound \<and> (\<forall>b \<in> set bs. failed (f b))"
proof (induction bs)
  case Nil
  show ?case by (auto simp: nil)
next
  case (Cons b bs)
  then show ?case by (cases "f b") (auto simp: cons failed_def)
qed

lemma chain_first_success:
  assumes nil: "loop [] = Failure NotFound"
    and cons: "\<And>b bs. loop (b # bs) =
      (case f b of Return x \<Rightarrow> Return x | Failure e \<Rightarrow> loop bs | Panic p \<Rightarrow> Panic p)"
  shows "loop bs = Return x \<longleftrightarrow>
    (\<exists>pre b post. bs = pre @ b # post \<and> (\<forall>b' \<in> set pre. failed (f b')) \<and> f b = Return x)"
proof (induction bs)
  case Nil
  show ?case by (simp add: nil)
next
  case (Cons a bs)
  show ?case
  proof (cases "f a")
    case (Return y)
    have "(\<exists>pre b post. a # bs = pre @ b # post \<and> (\<forall>b' \<in> set pre. failed (f b')) \<and> f b = Return x)
          \<longleftrightarrow> y = x"
    proof
      assume "\<exists>pre b post. a # bs = pre @ b # post \<and> (\<forall>b' \<in> set pre. failed (f b')) \<and> f b = Return x"
      then obtain pre b post where h: "a # bs = pre @ b # post" "\<forall>b' \<in> set pre. failed (f b')" "f b = Return x"
        by blast
      show "y = x"
      proof (cases pre)
        case Nil
        with h Return show ?thesis by simp
      next
        case (Cons p ps)
        with h have "failed (f a)" by simp
        with Return show ?thesis by (simp add: failed_def)
      qed
    next
      assume "y = x"
      with Return have "a # bs = [] @ a # bs \<and> (\<forall>b' \<in> set []. failed (f b')) \<and> f a = Return x" by simp
      then show "\<exists>pre b post. a # bs = pre @ b # post \<and> (\<forall>b' \<in> set pre. failed (f b')) \<and> f b = Return x"
        by blast
    qed
    with Return show ?thesis by (simp add: cons)
  next
    case (Failure e)
    have "(\<exists>pre b post. a # bs = pre @ b # post \<and> (\<forall>b' \<in> set pre. failed (f b')) \<and> f b = Return x)
          \<longleftrightarrow> (\<exists>pre b post. bs = pre @ b # post \<and> (\<forall>b' \<in> set pre. failed (f b')) \<and> f b = Return x)"
      (is "?L \<longleftrightarrow> ?R")
    proof
      assume ?L
      then obtain pre b post where h: "a # bs = pre @ b # post" "\<forall>b' \<in> set pre. failed (f b')" "f b = Return x"
        by blast
      show ?R
      proof (cases pre)
        case Nil
        with h Failure show ?thesis by simp
      next
        case (Cons p ps)
        with h have "bs = ps @ b # post \<and> (\<forall>b' \<in> set ps. failed (f b')) \<and> f b = Return x" by simp
        then show ?thesis by blast
      qed
    next
      assume ?R
      then obtain pre b post where h: "bs = pre @ b # post" "\<forall>b' \<in> set pre. failed (f b')" "f b = Return x"
        by blast
      with Failure have "a # bs = (a # pre) @ b # post \<and> (\<forall>b' \<in> set (a # pre). failed (f b')) \<and> f b = Return x"
        by (simp add: failed_def)
      then show ?L by blast
    qed
    with Failure Cons show ?thesis by (simp add: cons)
  next
    case (Panic p)
    have "\<not> (\<exists>pre b post. a # bs = pre @ b # post \<and> (\<forall>b' \<in> set pre. failed (f b')) \<and> f b = Return x)"
    proof
      assume "\<exists>pre b post. a # bs = pre @ b # post \<and> (\<forall>b' \<in> set pre. failed (f b')) \<and> f b = Return x"
      then obtain pre b post where h: "a # bs = pre @ b # post" "\<forall>b' \<in> set pre. failed (f b')" "f b = Return x"
        by blast
      show False
      proof (cases pre)
        case Nil
        with h Panic show ?thesis by simp
      next
        case (Cons p ps)
        with h have "failed (f a)" by simp
        with Panic show ?thesis by (simp add: failed_def)
      qed
    qed
    with Panic show ?thesis by (simp add: cons)
  qed
qed

lemma existsLoop_iff: "existsLoop w bs oid \<longleftrightarrow> (\<exists>b \<in> set bs. Loose_Exists w b oid)"
  by (induction bs) auto

text \<open>
  Claim C5. \<^verbatim>\<open>Read\<close>, \<^verbatim>\<open>ReadHeader\<close> and \<^verbatim>\<open>ReadPrefix\<close> of the dispatcher go through the
  backends in the order of the list (which registration keeps sorted by priority) and
  return the result of the first backend that succeeds, passing over the backends before
  it, which failed; they return an error, and then \<open>NotFound\<close>, if and only if every
  backend failed; \<^verbatim>\<open>Exists\<close> is true if and only if some backend reports the object.
\<close>

theorem dispatcher_first_success:
  "(Odb_Read w odb oid = Return obj \<longleftrightarrow>
      (\<exists>pre b post. backends odb = pre @ b # post \<and>
         (\<forall>b' \<in> set pre. failed (Loose_Read w b' oid)) \<and> Loose_Read w b oid = Return obj)) \<and>
   (Odb_Read w odb oid = Failure e \<longleftrightarrow>
      e = NotFound \<and> (\<forall>b \<in> set (backends odb). failed (Loose_Read w b oid))) \<and>
   (Odb_ReadHeader w odb oid = Return hdr \<longleftrightarrow>
      (\<exists>pre b post. backends odb = pre @ b # post \<and>
         (\<forall>b' \<in> set pre. failed (Loose_ReadHeader w b' oid)) \<and> Loose_ReadHeader w b oid = Return hdr)) \<and>
   (Odb_ReadHeader w odb oid = Failure e \<longleftrightarrow>
      e = NotFound \<and> (\<forall>b \<in> set (backends odb). failed (Loose_ReadHeader w b oid))) \<and>
   (Odb_ReadPrefix w odb oid len = Return found \<longleftrightarrow>
      (\<exists>pre b post. backends odb = pre @ b # post \<and>
         (\<forall>b' \<in> set pre. failed (Loose_ReadPrefix w b' oid len)) \<and>
         Loose_ReadPrefix w b oid len = Return found)) \<and>
   (Odb_ReadPrefix w odb oid len = Failure e \<longleftrightarrow>
      e = NotFound \<and> (\<forall>b \<in> set (backends odb). failed (Loose_ReadPrefix w b oid len))) \<and>
   (Odb_Exists w odb oid \<longleftrightarrow> (\<exists>b \<in> set (backends odb). Loose_Exists w b oid))"
proof -
  have r1: "readLoop w bs oid = Return obj \<longleftrightarrow>
      (\<exists>pre b post. bs = pre @ b # post \<and>
         (\<forall>b' \<in> set pre. failed (Loose_Read w b' oid)) \<and> Loose_Read w b oid = Return obj)" for bs
    by (rule chain_first_success [where loop = "\<lambda>bs. readLoop w bs oid"]) simp_all
  have r2: "readLoop w bs oid = Failure e \<longleftrightarrow>
      e = NotFound \<and> (\<forall>b \<in> set bs. failed (Loose_Read w b oid))" for bs
    by (rule chain_all_failed [where loop = "\<lambda>bs. readLoop w bs oid"]) simp_all
  have h1: "readHeaderLoop w bs oid = Return hdr \<longleftrightarrow>
      (\<exists>pre b post. bs = pre @ b # post \<and>
         (\<forall>b' \<in> set pre. failed (Loose_ReadHeader w b' oid)) \<and> Loose_ReadHeader w b oid = Return hdr)" for bs
    by (rule chain_first_success [where loop = "\<lambda>bs. readHeaderLoop w bs oid"]) simp_all
  have h2: "readHeaderLoop w bs oid = Failure e \<longleftrightarrow>
      e = NotFound \<and> (\<forall>b \<in> set bs. failed (Loose_ReadHeader w b oid))" for bs
    by (rule chain_all_failed [where loop = "\<lambda>bs. readHeaderLoop w bs oid"]) simp_all
  have p1: "readPrefixLoop w bs oid len = Return found \<longleftrightarrow>
      (\<exists>pre b post. bs = pre @ b # post \<and>
         (\<forall>b' \<in> set pre. failed (Loose_ReadPrefix w b' oid len)) \<and>
         Loose_ReadPrefix w b oid len = Return found)" for bs
    by (rule chain_first_success [where loop = "\<lambda>bs. readPrefixLoop w bs oid len"]) simp_all
  have p2: "readPrefixLoop w bs oid len = Failure e \<longleftrightarrow>
      e = NotFound \<and> (\<forall>b \<in> set bs. failed (Loose_ReadPrefix w b oid len))" for bs
    by (rule chain_all_failed [where loop = "\<lambda>bs. readPrefixLoop w bs oid len"]) simp_all
  show ?thesis
    unfolding Odb_Read_def Odb_ReadHeader_def Odb_ReadPrefix_def Odb_Exists_def
    by (intro conjI r1 r2 h1 h2 p1 p2 existsLoop_iff)
qed

section \<open>The text header\<close>

lemma typeLoop_found:
  "data = tok @ 0x20 # rest \<Longrightarrow> 0x20 \<notin> set tok \<Longrightarrow> offset \<le> length tok \<Longrightarrow>
   typeLoop data offset = (TypeString2Type tok, length tok + 1, length tok + 1)"
proof (induction data offset rule: typeLoop.induct)
  case (1 data offset)
  show ?case
  proof (cases "offset = length tok")
    case True
    with 1(2) show ?thesis by (subst typeLoop.simps) simp
  next
    case False
    with 1(4) have lt: "offset < length tok" by simp
    then have "tok ! offset \<in> set tok" by simp
    with 1(3) have "tok ! offset \<noteq> 0x20" by auto
    with lt 1(2) have ne: "data ! offset \<noteq> 0x20" by (simp add: nth_append)
    from lt 1(2) have inb: "offset < length data" by simp
    from 1(1) [OF inb ne 1(2) 1(3)] lt
    have "typeLoop data (offset + 1) = (TypeString2Type tok, length tok + 1, length tok + 1)" by simp
    with inb ne show ?thesis by (subst typeLoop.simps) simp
  qed
qed

lemma typeLoop_none:
  "0x20 \<notin> set (drop offset data) \<Longrightarrow> typeLoop data offset = (ObjectBad, 0, max offset (length data))"
proof (induction data offset rule: typeLoop.induct)
  case (1 data offset)
  show ?case
  proof (cases "offset < length data")
    case False
    then show ?thesis by (subst typeLoop.simps) (simp add: max_def)
  next
    case True
    then have d: "drop offset data = data ! offset # drop (offset + 1) data"
      by (simp add: Cons_nth_drop_Suc)
    with 1(2) have ne: "data ! offset \<noteq> 0x20" and r: "0x20 \<notin> set (drop (offset + 1) data)" by auto
    from 1(1) [OF True ne r] True ne show ?thesis by (subst typeLoop.simps) (simp add: max_def)
  qed
qed

lemma sizeLoop_found:
  "data = pre @ digits @ 0 # payload \<Longrightarrow> 0 \<notin> set digits \<Longrightarrow> length pre = typeEnd \<Longrightarrow>
   typeEnd \<le> offset \<Longrightarrow> offset \<le> typeEnd + length digits \<Longrightarrow>
   sizeLoop data typeEnd offset =
     (case ParseUint digits of None \<Rightarrow> Failure Corrupt
      | Some sz \<Rightarrow> Return (sz, typeEnd + length digits + 1))"
proof (induction data typeEnd offset rule: sizeLoop.induct)
  case (1 data typeEnd offset)
  show ?case
  proof (cases "offset = typeEnd + length digits")
    case True
    with 1(2,4) have "data ! offset = 0" by (simp add: nth_append)
    moreover from True 1(2,4) have "drop typeEnd (take offset data) = digits" by simp
    moreover from True 1(2,4) have "offset < length data" by simp
    ultimately show ?thesis using True by (subst sizeLoop.simps) (simp split: option.splits)
  next
    case False
    with 1(6) have lt: "offset < typeEnd + length digits" by simp
    with 1(2,4) have inb: "offset < length data" by simp
    from lt 1(5) have "digits ! (offset - typeEnd) \<in> set digits" by simp
    with 1(3) have "digits ! (offset - typeEnd) \<noteq> 0" by auto
    with lt 1(2,4,5) have ne: "data ! offset \<noteq> 0" by (simp add: nth_append)
    from 1(1) [OF inb ne 1(2) 1(3) 1(4)] lt 1(5)
    have "sizeLoop data typeEnd (offset + 1) =
      (case ParseUint digits of None \<Rightarrow> Failure Corrupt
       | Some sz \<Rightarrow> Return (sz, typeEnd + length digits + 1))" by simp
    with inb ne show ?thesis by (subst sizeLoop.simps) simp
  qed
qed

lemma sizeLoop_none:
  "0 \<notin> set (drop offset data) \<Longrightarrow> sizeLoop data typeEnd offset = Return (0, max offset (length data))"
proof (induction data typeEnd offset rule: sizeLoop.induct)
  case (1 data typeEnd offset)
  show ?case
  proof (cases "offset < length data")
    case False
    then show ?thesis by (subst sizeLoop.simps) (simp add: max_def)
  next
    case True
    then have d: "drop offset data = data ! offset # drop (offset + 1) data"
      by (simp add: Cons_nth_drop_Suc)
    with 1(2) have ne: "data ! offset \<noteq> 0" and r: "0 \<notin> set (drop (offset + 1) data)" by auto
    from 1(1) [OF True ne r] True ne show ?thesis by (subst sizeLoop.simps) (simp add: max_def)
  qed
qed

lemma parseObjectHeader_no_space:
  "0x20 \<notin> set data \<Longrightarrow> parseObjectHeader data = Return (ObjectBad, 0, length data)"
  using typeLoop_none [of 0 data] sizeLoop_none [of "length data" data 0]
  by (simp add: parseObjectHeader_def)

lemma parseObjectHeader_no_nul:
  "0x20 \<notin> set tok \<Longrightarrow> 0 \<notin> set rest \<Longrightarrow>
   parseObjectHeader (tok @ 0x20 # rest) = Return (TypeString2Type tok, 0, length tok + 1 + length rest)"
  using typeLoop_found [of "tok @ 0x20 # rest" tok rest 0]
    sizeLoop_none [of "length tok + 1" "tok @ 0x20 # rest" "length tok + 1"]
  by (simp add: parseObjectHeader_def max_def)

lemma parseObjectHeader_header:
  "0x20 \<notin> set tok \<Longrightarrow> 0 \<notin> set digits \<Longrightarrow>
   parseObjectHeader (tok @ 0x20 # digits @ 0 # payload) =
     (case ParseUint digits of None \<Rightarrow> Failure Corrupt
      | Some sz \<Rightarrow> Return (TypeString2Type tok, sz, length tok + length digits + 2))"
  using typeLoop_found [of "tok @ 0x20 # digits @ 0 # payload" tok "digits @ 0 # payload" 0]
    sizeLoop_found [of "tok @ 0x20 # digits @ 0 # payload" "tok @ [0x20]" digits payload
       "length tok + 1" "length tok + 1"]
  by (simp add: parseObjectHeader_def split: option.splits)

lemma header_shapes:
  "0x20 \<notin> set data \<or>
   (\<exists>tok rest. data = tok @ 0x20 # rest \<and> 0x20 \<notin> set tok \<and> 0 \<notin> set rest) \<or>
   (\<exists>tok digits payload. data = tok @ 0x20 # digits @ 0 # payload \<and> 0x20 \<notin> set tok \<and> 0 \<notin> set digits)"
proof (cases "0x20 \<in> set data")
  case False
  then show ?thesis by simp
next
  case True
  then obtain tok rest where d: "data = tok @ 0x20 # rest" "0x20 \<notin> set tok"
    by (meson split_list_first)
  show ?thesis
  proof (cases "0 \<in> set rest")
    case False
    with d show ?thesis by blast
  next
    case True
    then obtain digits payload where "rest = digits @ 0 # payload" "0 \<notin> set digits"
      by (meson split_list_first)
    with d show ?thesis by blast
  qed
qed

section \<open>Prefix resolution in a bucket\<close>

lemma prefixLoop_count:
  "fst (prefixLoop pre names found foundId) = found + length (filter (\<lambda>n. HasPrefix n pre) names)"
  by (induction names arbitrary: found foundId) auto

lemma prefixLoop_single:
  "filter (\<lambda>n. HasPrefix n pre) names = [m] \<Longrightarrow> snd (prefixLoop pre names found foundId) = m"
proof (induction names arbitrary: found foundId)
  case Nil
  then show ?case by simp
next
  case (Cons n names)
  show ?case
  proof (cases "HasPrefix n pre")
    case True
    with Cons.prems have m: "n = m" and none: "filter (\<lambda>n. HasPrefix n pre) names = []" by auto
    have "snd (prefixLoop pre names f i) = i" for f i
      using none by (induction names arbitrary: f i) (auto split: if_splits)
    with True m show ?thesis by simp
  next
    case False
    with Cons show ?thesis by simp
  qed
qed
lemma NewOid_cases:
  "NewOid s = (if length s = 40 \<and> list_all is_hex s then Return (map lower_hex s) else Failure InvalidFormat)"
  by (simp add: NewOid_def)

section \<open>Enumeration\<close>

lemma visit_append:
  "visit_in_order visitor (xs @ ys) s =
     (case visit_in_order visitor xs s of
        (Return u, s') \<Rightarrow> visit_in_order visitor ys s'
      | (Failure e, s') \<Rightarrow> (Failure e, s')
      | (Panic p, s') \<Rightarrow> (Panic p, s'))"
  by (induction xs arbitrary: s) (auto split: prod.splits option.splits)

lemma forEachChild_visit:
  "length dirName = 2 \<Longrightarrow>
   list_all (\<lambda>childItem. list_all is_hex (dirName @ childItem))
     (filter (\<lambda>childItem. length childItem = 38) childItems) \<Longrightarrow>
   forEachChild visitor dirName childItems s =
   visit_in_order visitor
     (map (\<lambda>childItem. map lower_hex (dirName @ childItem))
        (filter (\<lambda>childItem. length childItem = 38) childItems)) s"
proof (induction childItems arbitrary: s)
  case Nil
  show ?case by simp
next
  case (Cons c cs)
  show ?case
  proof (cases "length c = 38")
    case False
    with Cons show ?thesis by simp
  next
    case True
    with Cons.prems have "NewOid (dirName @ c) = Return (map lower_hex (dirName @ c))"
      by (simp add: NewOid_def)
    with True Cons show ?thesis by (auto split: prod.splits option.splits)
  qed
qed

lemma forEachDir_visit:
  "list_all (bucket_ok w backend) (filter (\<lambda>dirName. length dirName = 2) dirNames) \<Longrightarrow>
   forEachDir w backend visitor dirNames s =
   visit_in_order visitor (loose_objects w backend dirNames) s"
proof (induction dirNames arbitrary: s)
  case Nil
  show ?case by (simp add: loose_objects_def)
next
  case (Cons d ds)
  then have ih: "forEachDir w backend visitor ds s' =
      visit_in_order visitor (loose_objects w backend ds) s'" for s'
    by (simp split: if_splits)
  show ?case
  proof (cases "length d = 2")
    case False
    with ih show ?thesis by (simp add: loose_objects_def)
  next
    case True
    with Cons.prems have ok: "bucket_ok w backend d" by simp
    then obtain cs where cs: "readdirnames w (filepath_Join w (objectsDir backend) d) = Some cs"
      and hex: "list_all (\<lambda>childItem. list_all is_hex (d @ childItem))
            (filter (\<lambda>childItem. length childItem = 38) cs)"
      by (auto simp: bucket_ok_def split: option.splits)
    have lo: "loose_objects w backend (d # ds) = bucket_objects w backend d @ loose_objects w backend ds"
      using True by (simp add: loose_objects_def)
    have bo: "forEachChild visitor d cs s = visit_in_order visitor (bucket_objects w backend d) s"
      using forEachChild_visit [OF True hex] cs by (simp add: bucket_objects_def)
    show ?thesis
      using True cs bo ih
      by (simp add: lo visit_append split: prod.splits outcome.splits)
  qed
qed

section \<open>Alternates\<close>

lemma backends_addBackendInternal:
  "set (backends (addBackendInternal odb backend prio alt info)) =
   insert (InitBackend backend prio alt info) (set (backends odb))"
  by (simp add: addBackendInternal_def sort_Sort_set)

lemma registered_add: "registered (addBackendInternal odb backend prio alt info) info"
  by (simp add: registered_def list_ex_iff backends_addBackendInternal SameDirectory_def InitBackend_def)

lemma alternates_grow:
  "set (backends odb) \<subseteq> set (backends (snd (AddDefaultBackends w odb dir alt d)))"
  "set (backends odb) \<subseteq> set (backends (snd (loadAlternates w odb dir d)))"
  "set (backends odb) \<subseteq> set (backends (snd (scanLines w odb dir d ls)))"
proof (induction w odb dir alt d and w odb dir d and w odb dir d ls
    rule: AddDefaultBackends_loadAlternates_scanLines.induct)
  case (1 w odb dir alt alternateDepth)
  show ?case
  proof (cases "stat_dir w dir")
    case None
    then show ?thesis by (simp add: AddDefaultBackends.simps)
  next
    case (Some info)
    show ?thesis
    proof (cases "list_ex (\<lambda>backend. SameDirectory backend info) (backends odb)")
      case True
      with Some show ?thesis by (simp add: AddDefaultBackends.simps)
    next
      case False
      from 1 [OF Some False] Some False show ?thesis
        by (auto simp: backends_addBackendInternal AddDefaultBackends.simps)
    qed
  qed
next
  case (2 w odb dir alternateDepth)
  then show ?case by (auto simp: loadAlternates.simps split: access.splits)
next
  case (3 w odb dir alternateDepth)
  show ?case by simp
next
  case (4 w odb dir alternateDepth line rest)
  show ?case
  proof (cases "length line = 0 \<or> hd line = CHR ''#''")
    case True
    with 4(1) show ?thesis by simp
  next
    case skip: False
    show ?thesis
    proof (cases "hd line = CHR ''.'' \<and> alternateDepth > 0")
      case False
      with skip 4(4) show ?thesis by auto
    next
      case True
      obtain r odb' where r: "AddDefaultBackends w odb (filepath_Join w dir line) True (alternateDepth + 1) = (r, odb')"
        by (cases "AddDefaultBackends w odb (filepath_Join w dir line) True (alternateDepth + 1)")
      from 4(2) [OF skip True] r have a: "set (backends odb) \<subseteq> set (backends odb')" by simp
      show ?thesis
      proof (cases r)
        case (Some e)
        with skip True r a show ?thesis by simp
      next
        case None
        from 4(3) [OF skip True r [symmetric] None]
        have "set (backends odb') \<subseteq> set (backends (snd (scanLines w odb' dir alternateDepth rest)))" .
        with a skip True r None show ?thesis by auto
      qed
    qed
  qed
qed

lemma registered_mono:
  "set (backends odb) \<subseteq> set (backends odb') \<Longrightarrow> registered odb info \<Longrightarrow> registered odb' info"
  by (auto simp: registered_def list_ex_iff)

lemma AddDefaultBackends_registers:
  assumes "AddDefaultBackends w odb dir alt d = (None, odb')" "stat_dir w dir = Some info"
  shows "registered odb' info"
proof (cases "list_ex (\<lambda>backend. SameDirectory backend info) (backends odb)")
  case True
  with assms show ?thesis by (simp add: registered_def AddDefaultBackends.simps)
next
  case False
  let ?odb1 = "addBackendInternal odb (NewOdbBackendLoose dir) GIT_LOOSE_PRIORITY alt info"
  from False assms have "odb' = snd (loadAlternates w ?odb1 dir d)"
    by (simp add: AddDefaultBackends.simps)
  with alternates_grow(2) [of ?odb1 w dir d] registered_add [of odb "NewOdbBackendLoose dir" GIT_LOOSE_PRIORITY alt info]
  show ?thesis by (auto intro: registered_mono)
qed

lemma AddDefaultBackends_ok_stat:
  "AddDefaultBackends w odb dir alt d = (None, odb') \<Longrightarrow> \<exists>info. stat_dir w dir = Some info"
  by (cases "stat_dir w dir") (auto simp: AddDefaultBackends.simps)

lemma scanLines_registers:
  "0 < d \<Longrightarrow> scanLines w odb dir d ls = (None, odb') \<Longrightarrow> l \<in> set ls \<Longrightarrow> l \<noteq> [] \<Longrightarrow>
   hd l = CHR ''.'' \<Longrightarrow>
   \<exists>info. stat_dir w (filepath_Join w dir l) = Some info \<and> registered odb' info"
proof (induction ls arbitrary: odb)
  case Nil
  then show ?case by simp
next
  case (Cons line rest)
  show ?case
  proof (cases "length line = 0 \<or> hd line = CHR ''#''")
    case True
    with Cons.prems have "scanLines w odb dir d rest = (None, odb')" "l \<in> set rest" by auto
    with Cons.IH Cons.prems show ?thesis by blast
  next
    case skip: False
    show ?thesis
    proof (cases "hd line = CHR ''.''")
      case False
      with skip Cons.prems have "scanLines w odb dir d rest = (None, odb')" "l \<in> set rest" by auto
      with Cons.IH Cons.prems show ?thesis by blast
    next
      case True
      obtain r odb1 where r: "AddDefaultBackends w odb (filepath_Join w dir line) True (d + 1) = (r, odb1)"
        by (cases "AddDefaultBackends w odb (filepath_Join w dir line) True (d + 1)")
      with skip True Cons.prems(1,2) have rn: "r = None" and rest: "scanLines w odb1 dir d rest = (None, odb')"
        by (auto split: option.splits)
      show ?thesis
      proof (cases "l = line")
        case False
        with Cons.prems have "l \<in> set rest" by simp
        with Cons.IH [OF Cons.prems(1) rest] Cons.prems show ?thesis by blast
      next
        case same: True
        from r rn AddDefaultBackends_ok_stat obtain info where
          st: "stat_dir w (filepath_Join w dir line) = Some info" by blast
        with r rn AddDefaultBackends_registers have "registered odb1 info" by blast
        moreover from alternates_grow(3) [of odb1 w dir d rest] rest
        have "set (backends odb1) \<subseteq> set (backends odb')" by simp
        ultimately have "registered odb' info" by (rule registered_mono [rotated])
        with st same show ?thesis by blast
      qed
    qed
  qed
qed

lemma scanLines_root:
  "d \<le> 0 \<Longrightarrow> scanLines w odb dir d ls = (None, odb)"
  by (induction ls) auto

section \<open>Decimal sizes and type names\<close>

lemma digit_byte: "d < 10 \<Longrightarrow> unat (digit d) = 48 + d"
  unfolding digit_def by (rule of_nat_inverse [OF refl]) simp

lemma is_digit_byte: "d < 10 \<Longrightarrow> is_digit (digit d)"
proof -
  assume d: "d < 10"
  have "unat (0x30 :: byte) \<le> unat (digit d)" and "unat (digit d) \<le> unat (0x39 :: byte)"
    using d by (simp_all add: digit_byte)
  then show ?thesis by (simp only: is_digit_def word_le_nat_alt)
qed

lemma decimal_digits: "list_all is_digit (decimal n)"
proof (induction n rule: decimal.induct)
  case (1 n)
  show ?case
  proof (cases "n < 10")
    case True
    then show ?thesis by (subst decimal.simps) (simp add: is_digit_byte)
  next
    case False
    with 1 show ?thesis by (subst decimal.simps) (simp add: is_digit_byte)
  qed
qed

lemma decimal_nonempty: "decimal n \<noteq> []"
  by (subst decimal.simps) simp

lemma digits_value_snoc: "digits_value (ds @ [d]) = 10 * digits_value ds + (unat d - 48)"
  by (simp add: digits_value_def)

lemma decimal_value: "digits_value (decimal n) = n"
proof (induction n rule: decimal.induct)
  case (1 n)
  show ?case
  proof (cases "n < 10")
    case True
    then have "digits_value [digit n] = n"
      using digit_byte [of n] by (simp add: digits_value_def)
    with True show ?thesis by (subst decimal.simps) simp
  next
    case False
    have "unat (digit (n mod 10)) - 48 = n mod 10"
      using digit_byte [of "n mod 10"] by simp
    with False 1 show ?thesis by (subst decimal.simps) (simp add: digits_value_snoc)
  qed
qed


lemma ParseUint_decimal: "n < 2 ^ 64 \<Longrightarrow> ParseUint (decimal n) = Some (of_nat n)"
  by (simp add: ParseUint_def decimal_nonempty decimal_digits decimal_value)

lemma is_digit_nonzero: "is_digit b \<Longrightarrow> b \<noteq> 0"
  by (auto simp: is_digit_def)

lemma decimal_no_nul: "0 \<notin> set (decimal n)"
  using decimal_digits [of n] is_digit_nonzero by (auto simp: list_all_iff)

lemma name_no_space: "named_type t \<Longrightarrow> 0x20 \<notin> set (Type2String t)"
  by (auto simp: named_type_def Type2String_def str_def ObjectCommit_def ObjectTree_def
      ObjectBlob_def ObjectTag_def)

lemma name_roundtrip: "named_type t \<Longrightarrow> TypeString2Type (Type2String t) = t"
  by (auto simp: named_type_def Type2String_def TypeString2Type_def str_def ObjectCommit_def
      ObjectTree_def ObjectBlob_def ObjectTag_def)


section \<open>Stored objects and the header fast path\<close>


lemma parse_stored_header:
  assumes "named_type t" "n < 2 ^ 64"
  shows "parseObjectHeader (object_header t n @ rest) =
         Return (t, of_nat n, length (object_header t n))"
  using parseObjectHeader_header [of "Type2String t" "decimal n" rest]
    name_no_space [OF assms(1)] decimal_no_nul [of n] ParseUint_decimal [OF assms(2)]
    name_roundtrip [OF assms(1)]
  by (simp add: object_header_def)


lemma Loose_Read_legacy:
  assumes "files w (object_path w backend oid) = Found content"
    and "legacy_object w content t payload"
  shows "Loose_Read w backend oid = Return \<lparr>Type = t, Data = payload\<rparr>"
proof -
  from assms(2) have z: "isZlibCompressedData content = Return True"
    and t: "named_type t" and n: "length payload < 2 ^ 64"
    and s: "zlib_NewReader w content = Some (object_header t (length payload) @ payload)"
    by (simp_all add: legacy_object_def) 
  from assms(1) z s parse_stored_header [OF t n, of payload] show ?thesis
    by (simp add: Loose_Read_def)
qed









section \<open>When parsing the text header fails\<close>

text \<open>
  Claim C3, as amended. Parsing the text header fails, and then with a \<open>Corrupt\<close>
  error, exactly when a NUL byte follows the first space and the bytes between that space
  and the first NUL after it are not a parseable decimal 64-bit number. The token before
  the first space is converted and not checked: with a parseable size the header is
  returned, with the type the type-name table gives for the token, which is \<open>Bad\<close> for
  an unknown token.
\<close>

theorem text_header_failure:
  "(parseObjectHeader data = Failure e \<longleftrightarrow>
      e = Corrupt \<and>
      (\<exists>tok digits payload. data = tok @ 0x20 # digits @ 0 # payload \<and>
         0x20 \<notin> set tok \<and> 0 \<notin> set digits \<and> ParseUint digits = None)) \<and>
   (0x20 \<notin> set tok' \<and> 0 \<notin> set digits' \<and> ParseUint digits' = Some n \<longrightarrow>
      parseObjectHeader (tok' @ 0x20 # digits' @ 0 # payload') =
        Return (TypeString2Type tok', n, length tok' + length digits' + 2))"
proof (rule conjI)
  show "parseObjectHeader data = Failure e \<longleftrightarrow>
      e = Corrupt \<and>
      (\<exists>tok digits payload. data = tok @ 0x20 # digits @ 0 # payload \<and>
         0x20 \<notin> set tok \<and> 0 \<notin> set digits \<and> ParseUint digits = None)"
    (is "?L \<longleftrightarrow> ?R")
  proof
    assume f: ?L
    from header_shapes [of data] show ?R
    proof (elim disjE exE conjE)
      assume "0x20 \<notin> set data"
      from parseObjectHeader_no_space [OF this] f show ?thesis by simp
    next
      fix tok rest
      assume "data = tok @ 0x20 # rest" "0x20 \<notin> set tok" "0 \<notin> set rest"
      with parseObjectHeader_no_nul [of tok rest] f show ?thesis by simp
    next
      fix tok digits payload
      assume d: "data = tok @ 0x20 # digits @ 0 # payload" "0x20 \<notin> set tok" "0 \<notin> set digits"
      with parseObjectHeader_header [of tok digits payload] f
      have "e = Corrupt \<and> ParseUint digits = None" by (auto split: option.splits)
      with d show ?thesis by blast
    qed
  next
    assume ?R
    then obtain tok digits payload where "e = Corrupt" "data = tok @ 0x20 # digits @ 0 # payload"
      "0x20 \<notin> set tok" "0 \<notin> set digits" "ParseUint digits = None" by blast
    with parseObjectHeader_header [of tok digits payload] show ?L by simp
  qed
next
  show "0x20 \<notin> set tok' \<and> 0 \<notin> set digits' \<and> ParseUint digits' = Some n \<longrightarrow>
      parseObjectHeader (tok' @ 0x20 # digits' @ 0 # payload') =
        Return (TypeString2Type tok', n, length tok' + length digits' + 2)"
    using parseObjectHeader_header [of tok' digits' payload'] by simp
qed

text \<open>The claim as it was stated fails on a stream with the unknown type token \<open>bogus\<close>:
  the parser returns type \<open>Bad\<close>, size 3 and offset 8, and no error.\<close>

theorem unknown_type_is_returned:
  "parseObjectHeader (str ''bogus'' @ 0x20 # str ''3'' @ 0 # str ''abc'') = Return (ObjectBad, 3, 8)"
proof -
  have "ParseUint (str ''3'') = Some 3"
    by (simp add: ParseUint_def is_digit_def digits_value_def str_def)
  moreover have "TypeString2Type (str ''bogus'') = ObjectBad"
    by (simp add: TypeString2Type_def str_def)
  moreover have "0x20 \<notin> set (str ''bogus'')" "0 \<notin> set (str ''3'')" by (simp_all add: str_def)
  ultimately show ?thesis
    using parseObjectHeader_header [of "str ''bogus''" "str ''3''" "str ''abc''"]
    by (simp add: str_def)
qed

theorem text_header_failure_witness:
  "parseObjectHeader (str ''blob'' @ 0x20 # str ''x'' @ 0 # str ''abc'') = Failure Corrupt \<and>
   parseObjectHeader (str ''bogus'' @ 0x20 # str ''3'' @ 0 # str ''abc'') =
     Return (TypeString2Type (str ''bogus''), 3, length (str ''bogus'') + length (str ''3'') + 2)"
proof -
  have p: "ParseUint (str ''x'') = None"
    by (simp add: ParseUint_def is_digit_def str_def)
  have q: "ParseUint (str ''3'') = Some 3"
    by (simp add: ParseUint_def is_digit_def digits_value_def str_def)
  have s: "0x20 \<notin> set (str ''blob'')" "0 \<notin> set (str ''x'')"
    "0x20 \<notin> set (str ''bogus'')" "0 \<notin> set (str ''3'')" by (simp_all add: str_def)
  have a: "parseObjectHeader (str ''blob'' @ 0x20 # str ''x'' @ 0 # str ''abc'') = Failure Corrupt"
    using text_header_failure [of "str ''blob'' @ 0x20 # str ''x'' @ 0 # str ''abc''" Corrupt "[]" "[]" 0 "[]",
        THEN conjunct1] p s
    by blast
  have b: "parseObjectHeader (str ''bogus'' @ 0x20 # str ''3'' @ 0 # str ''abc'') =
     Return (TypeString2Type (str ''bogus''), 3, length (str ''bogus'') + length (str ''3'') + 2)"
    using text_header_failure [of "[]" Corrupt "str ''bogus''" "str ''3''" 3 "str ''abc''", THEN conjunct2] q s
    by blast
  from a b show ?thesis by simp
qed

section \<open>The example store at work\<close>

lemma backend_simps:
  "objectsDir objs_backend = ''objs''" "objectsDir alt_backend = ''objs/../alt''"
  "objectsDir stray_backend = ''stray''"
  "dirInfo objs_backend = Some 1" "dirInfo alt_backend = Some 2"
  by (simp_all add: objs_backend_def alt_backend_def stray_backend_def InitBackend_def
      NewOdbBackendLoose_def)

lemma example_paths:
  "object_path example_store alt_backend hello_oid =
     ''objs/../alt/b6/fc4c620b67d95f953a5c1c1230aaab5db5a1b0''"
  "object_path example_store objs_backend hello_oid =
     ''objs/b6/fc4c620b67d95f953a5c1c1230aaab5db5a1b0''"
  by (simp_all add: object_path_def PathFormat_def example_store_def backend_simps hello_oid_def)

lemma example_files:
  "files example_store ''objs/../alt/b6/fc4c620b67d95f953a5c1c1230aaab5db5a1b0'' = Found hello_file"
  "files example_store ''objs/b6/fc4c620b67d95f953a5c1c1230aaab5db5a1b0'' = NotExist"
  by (simp_all add: example_store_def)

lemma hello_header: "object_header ObjectBlob 5 = [98, 108, 111, 98, 32, 53, 0]"
  by (simp add: object_header_def Type2String_def ObjectBlob_def ObjectCommit_def ObjectTree_def
      str_def decimal.simps digit_def)

lemma hello_legacy: "legacy_object example_store hello_file ObjectBlob (str ''hello'')"
proof -
  have len: "length (str ''hello'') = 5" by (simp add: str_def)
  have z: "isZlibCompressedData hello_file = Return True"
    by (simp add: isZlibCompressedData_def hello_file_def)
  have t: "named_type ObjectBlob" by (simp add: named_type_def)
  have s: "zlib_NewReader example_store hello_file =
      Some (object_header ObjectBlob (length (str ''hello'')) @ str ''hello'')"
    unfolding len hello_header
    by (simp add: example_store_def stored_inflate_def hello_file_def str_def)
  from z t s show ?thesis by (simp add: legacy_object_def len)
qed


text \<open>The dispatcher on the example store: the first backend has no file for the blob,
  the second returns it.\<close>

lemma hello_read_alt:
  "Loose_Read example_store alt_backend hello_oid = Return \<lparr>Type = ObjectBlob, Data = str ''hello''\<rparr>"
  using Loose_Read_legacy [OF _ hello_legacy, of alt_backend hello_oid]
  by (simp add: example_paths example_files)

lemma hello_read_objs: "Loose_Read example_store objs_backend hello_oid = Failure IOError"
  by (simp add: Loose_Read_def example_paths example_files)

theorem dispatcher_first_success_witness:
  "Odb_Read example_store \<lparr>backends = [objs_backend, alt_backend]\<rparr> hello_oid =
     Return \<lparr>Type = ObjectBlob, Data = str ''hello''\<rparr> \<and>
   failed (Loose_Read example_store objs_backend hello_oid) \<and>
   Odb_Read example_store \<lparr>backends = [objs_backend]\<rparr> hello_oid = Failure NotFound"
proof -
  have fl: "failed (Loose_Read example_store objs_backend hello_oid)"
    by (simp add: hello_read_objs failed_def)
  have "\<exists>pre b post. backends \<lparr>backends = [objs_backend, alt_backend]\<rparr> = pre @ b # post \<and>
      (\<forall>b' \<in> set pre. failed (Loose_Read example_store b' hello_oid)) \<and>
      Loose_Read example_store b hello_oid = Return \<lparr>Type = ObjectBlob, Data = str ''hello''\<rparr>"
  proof (intro exI conjI)
    show "backends \<lparr>backends = [objs_backend, alt_backend]\<rparr> = [objs_backend] @ alt_backend # []"
      by simp
    show "\<forall>b' \<in> set [objs_backend]. failed (Loose_Read example_store b' hello_oid)"
      using fl by simp
    show "Loose_Read example_store alt_backend hello_oid = Return \<lparr>Type = ObjectBlob, Data = str ''hello''\<rparr>"
      by (rule hello_read_alt)
  qed
  then have a: "Odb_Read example_store \<lparr>backends = [objs_backend, alt_backend]\<rparr> hello_oid =
     Return \<lparr>Type = ObjectBlob, Data = str ''hello''\<rparr>"
    using dispatcher_first_success [of example_store "\<lparr>backends = [objs_backend, alt_backend]\<rparr>"
        hello_oid "\<lparr>Type = ObjectBlob, Data = str ''hello''\<rparr>" NotFound "(0, 0)" 0 "([], \<lparr>Type = 0, Data = []\<rparr>)"]
    by blast
  have "\<forall>b \<in> set (backends \<lparr>backends = [objs_backend]\<rparr>). failed (Loose_Read example_store b hello_oid)"
    using fl by simp
  then have b: "Odb_Read example_store \<lparr>backends = [objs_backend]\<rparr> hello_oid = Failure NotFound"
    using dispatcher_first_success [of example_store "\<lparr>backends = [objs_backend]\<rparr>"
        hello_oid "\<lparr>Type = 0, Data = []\<rparr>" NotFound "(0, 0)" 0 "([], \<lparr>Type = 0, Data = []\<rparr>)"]
    by blast
  from a fl b show ?thesis by simp
qed

section \<open>Resolving a prefix\<close>

text \<open>
  Claim C6, as amended. When the bucket directory of the Oid can be listed and the prefix
  has between 2 and 40 characters, \<^verbatim>\<open>ExistsPrefix\<close> matches the names of the bucket
  against the remaining characters of the prefix: with no matching name it fails with
  \<open>NotFound\<close>; with exactly one it returns what \<^verbatim>\<open>NewOid\<close> makes of the bucket name
  followed by that name, which is the resolved Oid when the name is 38 hexadecimal
  characters and the \<open>InvalidFormat\<close> error otherwise; with two or more it fails with
  \<open>Ambiguous\<close>.
\<close>

theorem prefix_resolution:
  assumes dir: "readdirnames w (filepath_Join w (objectsDir backend) (take 2 oid)) = Some names"
    and len: "2 \<le> len" "len \<le> 40" and oid: "length oid = 40"
  shows "(prefix_matches oid len names = [] \<longrightarrow>
            Loose_ExistsPrefix w backend oid len = Failure NotFound) \<and>
         (prefix_matches oid len names = [m] \<longrightarrow>
            Loose_ExistsPrefix w backend oid len = NewOid (take 2 oid @ m)) \<and>
         (prefix_matches oid len names = [m] \<and> length m = 38 \<and> list_all is_hex (take 2 oid @ m) \<longrightarrow>
            Loose_ExistsPrefix w backend oid len = Return (map lower_hex (take 2 oid @ m))) \<and>
         (prefix_matches oid len names = [m] \<and> \<not> (length m = 38 \<and> list_all is_hex (take 2 oid @ m)) \<longrightarrow>
            Loose_ExistsPrefix w backend oid len = Failure InvalidFormat) \<and>
         (2 \<le> length (prefix_matches oid len names) \<longrightarrow>
            Loose_ExistsPrefix w backend oid len = Failure Ambiguous)"
proof -
  let ?pre = "take (nat (len - 2)) (drop 2 oid)"
  obtain found foundId where pl: "prefixLoop ?pre names 0 [] = (found, foundId)"
    by (cases "prefixLoop ?pre names 0 []")
  have cnt: "found = length (prefix_matches oid len names)"
    using prefixLoop_count [of ?pre names 0 "[]"] pl by (simp add: prefix_matches_def)
  have run: "Loose_ExistsPrefix w backend oid len =
      (if found = 0 then Failure NotFound
       else if found = 1 then NewOid (take 2 oid @ foundId) else Failure Ambiguous)"
    using dir len oid pl by (simp add: Loose_ExistsPrefix_def PathFormat_def)
  have one: "foundId = m" if "prefix_matches oid len names = [m]"
    using prefixLoop_single [of ?pre names m 0 "[]"] that pl by (simp add: prefix_matches_def)
  have l2: "length (take 2 oid @ m) = 40 \<longleftrightarrow> length m = 38" using oid by auto
  have c1: "prefix_matches oid len names = [] \<longrightarrow> Loose_ExistsPrefix w backend oid len = Failure NotFound"
    using run cnt by simp
  have c2: "prefix_matches oid len names = [m] \<longrightarrow>
            Loose_ExistsPrefix w backend oid len = NewOid (take 2 oid @ m)"
    using run cnt one by auto
  have c3: "prefix_matches oid len names = [m] \<and> length m = 38 \<and> list_all is_hex (take 2 oid @ m) \<longrightarrow>
            Loose_ExistsPrefix w backend oid len = Return (map lower_hex (take 2 oid @ m))"
    using c2 l2 by (simp add: NewOid_cases del: list_all_append)
  have c4: "prefix_matches oid len names = [m] \<and> \<not> (length m = 38 \<and> list_all is_hex (take 2 oid @ m)) \<longrightarrow>
            Loose_ExistsPrefix w backend oid len = Failure InvalidFormat"
    using c2 l2 by (auto simp add: NewOid_cases simp del: list_all_append)
  have c5: "2 \<le> length (prefix_matches oid len names) \<longrightarrow>
            Loose_ExistsPrefix w backend oid len = Failure Ambiguous"
    using run cnt by simp
  from c1 c2 c3 c4 c5 show ?thesis by (intro conjI)
qed

lemma example_listing:
  "readdirnames example_store ''objs'' = Some [''ab'', ''info'', ''b6'', ''pack'']"
  "readdirnames example_store ''objs/ab'' = Some [name_a, name_b]"
  "readdirnames example_store ''objs/b6'' = Some [''tmp_obj_0a1b2c'']"
  "readdirnames example_store ''stray'' = Some [''ab'']"
  "readdirnames example_store ''stray/ab'' = Some [stray_name, name_a]"
  by (simp_all add: example_store_def)

lemma example_join: "filepath_Join example_store a b = a @ ''/'' @ b"
  by (simp add: example_store_def)

lemma hex_a: "list_all is_hex (''ab'' @ name_a)" "list_all is_hex (''ab'' @ name_b)"
  by (simp_all add: name_a_def name_b_def is_hex_def)

lemma lower_a: "map lower_hex (''ab'' @ name_a) = ''ab'' @ name_a"
  "map lower_hex (''ab'' @ name_b) = ''ab'' @ name_b"
  by (simp_all add: name_a_def name_b_def lower_hex_def)

lemma names_length: "length name_a = 38" "length name_b = 38" "length stray_name = 38"
  by (simp_all add: name_a_def name_b_def stray_name_def)

theorem prefix_resolution_witness:
  "Loose_ExistsPrefix example_store objs_backend (''ab'' @ name_a) 4 = Return (''ab'' @ name_a) \<and>
   Loose_ExistsPrefix example_store objs_backend (''ab'' @ name_a) 3 = Failure Ambiguous \<and>
   Loose_ExistsPrefix example_store objs_backend (''ab'' @ name_a) 2 = Failure Ambiguous \<and>
   Loose_ExistsPrefix example_store objs_backend (''ab'' @ name_b) 40 = Return (''ab'' @ name_b) \<and>
   Loose_ExistsPrefix example_store objs_backend (''abff'' @ drop 2 name_a) 4 = Failure NotFound"
proof -
  have d: "readdirnames example_store
      (filepath_Join example_store (objectsDir objs_backend) (take 2 (''ab'' @ n))) = Some [name_a, name_b]" for n
    by (simp add: example_join backend_simps example_listing)
  have d': "readdirnames example_store
      (filepath_Join example_store (objectsDir objs_backend) (take 2 (''abff'' @ n))) = Some [name_a, name_b]" for n
    by (simp add: example_join backend_simps example_listing)
  have la: "length (''ab'' @ name_a) = 40" "length (''ab'' @ name_b) = 40"
    "length (''abff'' @ drop 2 name_a) = 40"
    by (simp_all add: names_length)
  have m4: "prefix_matches (''ab'' @ name_a) 4 [name_a, name_b] = [name_a]"
    by (simp add: prefix_matches_def HasPrefix_def name_a_def name_b_def)
  have m3: "prefix_matches (''ab'' @ name_a) 3 [name_a, name_b] = [name_a, name_b]"
    by (simp add: prefix_matches_def HasPrefix_def name_a_def name_b_def)
  have m2: "prefix_matches (''ab'' @ name_a) 2 [name_a, name_b] = [name_a, name_b]"
    by (simp add: prefix_matches_def HasPrefix_def name_a_def name_b_def)
  have m40: "prefix_matches (''ab'' @ name_b) 40 [name_a, name_b] = [name_b]"
    by (simp add: prefix_matches_def HasPrefix_def name_a_def name_b_def)
  have m0: "prefix_matches (''abff'' @ drop 2 name_a) 4 [name_a, name_b] = []"
    by (simp add: prefix_matches_def HasPrefix_def name_a_def name_b_def)
  have h: "list_all is_hex (take 2 (''ab'' @ name_a) @ name_a)"
    "list_all is_hex (take 2 (''ab'' @ name_b) @ name_b)"
    using hex_a by simp_all
  have lw: "map lower_hex (take 2 (''ab'' @ name_a) @ name_a) = ''ab'' @ name_a"
    "map lower_hex (take 2 (''ab'' @ name_b) @ name_b) = ''ab'' @ name_b"
    using lower_a by simp_all
  have "Loose_ExistsPrefix example_store objs_backend (''ab'' @ name_a) 4 =
      Return (map lower_hex (take 2 (''ab'' @ name_a) @ name_a))"
    by (rule prefix_resolution [OF d _ _ la(1), where len = 4 and m = name_a,
          THEN conjunct2, THEN conjunct2, THEN conjunct1, rule_format])
      (simp, simp, intro conjI, rule m4, rule names_length(1), rule h(1))
  then have a: "Loose_ExistsPrefix example_store objs_backend (''ab'' @ name_a) 4 = Return (''ab'' @ name_a)"
    by (simp only: lw)
  have b: "Loose_ExistsPrefix example_store objs_backend (''ab'' @ name_a) 3 = Failure Ambiguous"
    by (rule prefix_resolution [OF d _ _ la(1), where len = 3 and m = name_a,
          THEN conjunct2, THEN conjunct2, THEN conjunct2, THEN conjunct2, rule_format])
      (simp, simp, simp only: m3, simp)
  have c: "Loose_ExistsPrefix example_store objs_backend (''ab'' @ name_a) 2 = Failure Ambiguous"
    by (rule prefix_resolution [OF d _ _ la(1), where len = 2 and m = name_a,
          THEN conjunct2, THEN conjunct2, THEN conjunct2, THEN conjunct2, rule_format])
      (simp, simp, simp only: m2, simp)
  have "Loose_ExistsPrefix example_store objs_backend (''ab'' @ name_b) 40 =
      Return (map lower_hex (take 2 (''ab'' @ name_b) @ name_b))"
    by (rule prefix_resolution [OF d _ _ la(2), where len = 40 and m = name_b,
          THEN conjunct2, THEN conjunct2, THEN conjunct1, rule_format])
      (simp, simp, intro conjI, rule m40, rule names_length(2), rule h(2))
  then have e: "Loose_ExistsPrefix example_store objs_backend (''ab'' @ name_b) 40 = Return (''ab'' @ name_b)"
    by (simp only: lw)
  have f: "Loose_ExistsPrefix example_store objs_backend (''abff'' @ drop 2 name_a) 4 = Failure NotFound"
    by (rule prefix_resolution [OF d' _ _ la(3), where len = 4 and m = name_a,
          THEN conjunct1, rule_format])
      (simp, simp, rule m0)
  from a b c e f show ?thesis by simp
qed

text \<open>The claim as it was stated fails on the bucket \<open>b6\<close> of the example store, whose
  only entry is a leftover temporary file: the one name that matches the empty rest of a
  2-character prefix is not an Oid, and the call fails.\<close>

theorem single_match_not_an_oid:
  "prefix_matches hello_oid 2 [''tmp_obj_0a1b2c''] = [''tmp_obj_0a1b2c''] \<and>
   Loose_ExistsPrefix example_store objs_backend hello_oid 2 = Failure InvalidFormat"
  by (simp add: prefix_matches_def HasPrefix_def Loose_ExistsPrefix_def PathFormat_def hello_oid_def
      example_join backend_simps example_listing NewOid_def)

section \<open>Enumerating a store\<close>

lemma visit_recording:
  "visit_in_order (recording verdict) oids visited =
     ((case dropWhile (\<lambda>oid. verdict oid = None) oids of
         [] \<Rightarrow> Return ()
       | oid # rest \<Rightarrow> (case verdict oid of Some e \<Rightarrow> Failure e | None \<Rightarrow> Return ())),
      visited @ take (Suc (length (takeWhile (\<lambda>oid. verdict oid = None) oids))) oids)"
  by (induction oids arbitrary: visited) (auto simp: recording_def)

text \<open>
  Claim C9, as amended. When the object directory can be listed, every one of its
  2-character entries can be listed and every 38-character name in them is hexadecimal
  after the name of its directory, \<^verbatim>\<open>ForEach\<close> invokes the visitor once for each entry with
  a 2-character directory name and a 38-character file name, in listing order, skipping
  every other entry; the first error of the visitor ends the enumeration, no further entry
  is visited, and that error is returned. The second half states it for a visitor that
  records its invocations: the Oids visited are the objects up to and including the first
  one the visitor rejects.
\<close>

theorem enumeration_in_order:
  assumes "readdirnames w (objectsDir backend) = Some dirNames"
    and "list_all (bucket_ok w backend) (filter (\<lambda>dirName. length dirName = 2) dirNames)"
  shows "Loose_ForEach w backend visitor s =
           visit_in_order visitor (loose_objects w backend dirNames) s \<and>
         Loose_ForEach w backend (recording verdict) [] =
           ((case dropWhile (\<lambda>oid. verdict oid = None) (loose_objects w backend dirNames) of
               [] \<Rightarrow> Return ()
             | oid # rest \<Rightarrow> (case verdict oid of Some e \<Rightarrow> Failure e | None \<Rightarrow> Return ())),
            take (Suc (length (takeWhile (\<lambda>oid. verdict oid = None) (loose_objects w backend dirNames))))
              (loose_objects w backend dirNames))"
proof -
  have a: "Loose_ForEach w backend v s' = visit_in_order v (loose_objects w backend dirNames) s'"
    for v :: "Oid \<Rightarrow> 'b \<Rightarrow> error option \<times> 'b" and s'
    using assms forEachDir_visit [of w backend dirNames v s'] by (simp add: Loose_ForEach_def)
  from a [of visitor s] a [of "recording verdict" "[]"] visit_recording [of verdict _ "[]"]
  show ?thesis by simp
qed

lemma objs_buckets:
  "bucket_ok example_store objs_backend ''ab''" "bucket_ok example_store objs_backend ''b6''"
  "bucket_objects example_store objs_backend ''ab'' = [''ab'' @ name_a, ''ab'' @ name_b]"
  "bucket_objects example_store objs_backend ''b6'' = []"
  using hex_a lower_a
  by (simp_all add: bucket_ok_def bucket_objects_def example_join backend_simps example_listing
      names_length)

lemma objs_loose_objects:
  "loose_objects example_store objs_backend [''ab'', ''info'', ''b6'', ''pack''] =
     [''ab'' @ name_a, ''ab'' @ name_b]"
  by (simp add: loose_objects_def objs_buckets)

theorem enumeration_in_order_witness:
  "Loose_ForEach example_store objs_backend (recording accepting) [] =
     (Return (), [''ab'' @ name_a, ''ab'' @ name_b]) \<and>
   Loose_ForEach example_store objs_backend (recording rejecting) [] =
     (Failure Corrupt, [''ab'' @ name_a])"
proof -
  have d: "readdirnames example_store (objectsDir objs_backend) = Some [''ab'', ''info'', ''b6'', ''pack'']"
    by (simp add: backend_simps example_listing)
  have ok: "list_all (bucket_ok example_store objs_backend)
      (filter (\<lambda>dirName. length dirName = 2) [''ab'', ''info'', ''b6'', ''pack''])"
    by (simp add: objs_buckets)
  from enumeration_in_order [OF d ok, of "recording accepting" "[]" accepting, THEN conjunct2]
  have a: "Loose_ForEach example_store objs_backend (recording accepting) [] =
     (Return (), [''ab'' @ name_a, ''ab'' @ name_b])"
    by (simp add: objs_loose_objects accepting_def rejecting_def)
  from enumeration_in_order [OF d ok, of "recording accepting" "[]" rejecting, THEN conjunct2]
  have b: "Loose_ForEach example_store objs_backend (recording rejecting) [] =
     (Failure Corrupt, [''ab'' @ name_a])"
    by (simp add: objs_loose_objects accepting_def rejecting_def)
  from a b show ?thesis by simp
qed

text \<open>The claim as it was stated fails on the directory \<open>stray\<close> of the example store:
  its bucket has two entries with a 38-character name, the first of them not hexadecimal;
  the visitor, which never returns an error, is invoked on neither, and \<^verbatim>\<open>ForEach\<close> returns
  the error of \<^verbatim>\<open>NewOid\<close>.\<close>

theorem enumeration_stops_at_stray_name:
  "length ''ab'' = 2 \<and> length stray_name = 38 \<and> length name_a = 38 \<and>
   readdirnames example_store ''stray'' = Some [''ab''] \<and>
   readdirnames example_store ''stray/ab'' = Some [stray_name, name_a] \<and>
   Loose_ForEach example_store stray_backend (recording accepting) [] = (Failure InvalidFormat, [])"
proof -
  have "NewOid (''ab'' @ stray_name) = Failure InvalidFormat"
    by (simp add: NewOid_def stray_name_def is_hex_def)
  then have "Loose_ForEach example_store stray_backend (recording accepting) [] = (Failure InvalidFormat, [])"
    by (simp add: Loose_ForEach_def backend_simps example_listing example_join names_length
        recording_def accepting_def)
  then show ?thesis by (simp add: names_length example_listing)
qed

section \<open>Loading alternates\<close>

lemma stat_example:
  "stat_dir example_store ''objs'' = Some 1" "stat_dir example_store ''objs/../alt'' = Some 2"
  by (simp_all add: example_store_def)

lemma lines_example:
  "open_lines example_store ''objs/info/alternates'' =
     Found [''# objects of the upstream repository'', [], ''../alt'']"
  "open_lines example_store ''objs/../alt/info/alternates'' = NotExist"
  by (simp_all add: example_store_def)

lemma sort_two: "sort_Sort [objs_backend, alt_backend] = [objs_backend, alt_backend]"
  "sort_Sort [objs_backend] = [objs_backend]" "sort_Sort [alt_backend] = [alt_backend]"
  by (simp_all add: sort_Sort_def Less_def objs_backend_def alt_backend_def InitBackend_def
      NewOdbBackendLoose_def)

lemma load_alt_2: "loadAlternates example_store odb ''objs/../alt'' 2 = (None, odb)"
  by (simp add: loadAlternates.simps GIT_ALTERNATES_MAX_DEPTH_def GIT_ALTERNATES_FILE_def
      example_join lines_example)

lemma add_alt:
  "AddDefaultBackends example_store \<lparr>backends = [objs_backend]\<rparr> ''objs/../alt'' True 2 =
     (None, \<lparr>backends = [objs_backend, alt_backend]\<rparr>)"
proof -
  have "addBackendInternal \<lparr>backends = [objs_backend]\<rparr> (NewOdbBackendLoose ''objs/../alt'')
          GIT_LOOSE_PRIORITY True 2 = \<lparr>backends = [objs_backend, alt_backend]\<rparr>"
    using sort_two(1) by (simp add: addBackendInternal_def alt_backend_def)
  then show ?thesis
    by (simp add: AddDefaultBackends.simps stat_example SameDirectory_def backend_simps load_alt_2)
qed

lemma load_objs_1:
  "loadAlternates example_store \<lparr>backends = [objs_backend]\<rparr> ''objs'' 1 =
     (None, \<lparr>backends = [objs_backend, alt_backend]\<rparr>)"
  by (simp add: loadAlternates.simps GIT_ALTERNATES_MAX_DEPTH_def GIT_ALTERNATES_FILE_def
      example_join lines_example add_alt)

lemma load_objs_0:
  "loadAlternates example_store odb ''objs'' 0 = (None, odb)"
  by (simp add: loadAlternates.simps GIT_ALTERNATES_MAX_DEPTH_def GIT_ALTERNATES_FILE_def
      example_join lines_example)

text \<open>
  Claim C2, as amended. At a depth from 1 through 5, when \<^verbatim>\<open>loadAlternates\<close> has read the
  alternates file and returns no error, every line of the file that starts with \<open>.\<close> has
  the directory obtained by joining it to the current object directory registered in the
  Odb (by the recursive \<^verbatim>\<open>AddDefaultBackends\<close> call with \<^verbatim>\<open>asAlternates=true\<close> and
  \<^verbatim>\<open>depth+1\<close>, or already before). At depth 0, the depth \<^verbatim>\<open>OdbOpen\<close> starts with, and beyond
  depth 5 no line is followed and the Odb is left as it was.
\<close>

theorem alternates_depth:
  "(0 < d \<and> d \<le> 5 \<and> open_lines w (filepath_Join w dir GIT_ALTERNATES_FILE) = Found ls \<and>
      loadAlternates w odb dir d = (None, odb') \<and> l \<in> set ls \<and> l \<noteq> [] \<and> hd l = CHR ''.'' \<longrightarrow>
      (\<exists>info. stat_dir w (filepath_Join w dir l) = Some info \<and> registered odb' info)) \<and>
   (d \<le> 0 \<or> 5 < d \<longrightarrow> snd (loadAlternates w odb dir d) = odb)"
proof (intro conjI impI)
  assume a: "0 < d \<and> d \<le> 5 \<and> open_lines w (filepath_Join w dir GIT_ALTERNATES_FILE) = Found ls \<and>
      loadAlternates w odb dir d = (None, odb') \<and> l \<in> set ls \<and> l \<noteq> [] \<and> hd l = CHR ''.''"
  then have "scanLines w odb dir d ls = (None, odb')"
    by (auto simp: GIT_ALTERNATES_MAX_DEPTH_def loadAlternates.simps)
  with a scanLines_registers show "\<exists>info. stat_dir w (filepath_Join w dir l) = Some info \<and> registered odb' info"
    by blast
next
  assume "d \<le> 0 \<or> 5 < d"
  then show "snd (loadAlternates w odb dir d) = odb"
    by (auto simp: GIT_ALTERNATES_MAX_DEPTH_def scanLines_root loadAlternates.simps split: access.splits)
qed

theorem alternates_depth_witness:
  "loadAlternates example_store \<lparr>backends = [objs_backend]\<rparr> ''objs'' 1 =
     (None, \<lparr>backends = [objs_backend, alt_backend]\<rparr>) \<and>
   stat_dir example_store (filepath_Join example_store ''objs'' ''../alt'') = Some 2 \<and>
   registered \<lparr>backends = [objs_backend, alt_backend]\<rparr> 2 \<and>
   snd (loadAlternates example_store \<lparr>backends = [objs_backend]\<rparr> ''objs'' 0) = \<lparr>backends = [objs_backend]\<rparr>"
proof -
  have h: "0 < (1::int) \<and> (1::int) \<le> 5 \<and>
      open_lines example_store (filepath_Join example_store ''objs'' GIT_ALTERNATES_FILE) =
        Found [''# objects of the upstream repository'', [], ''../alt''] \<and>
      loadAlternates example_store \<lparr>backends = [objs_backend]\<rparr> ''objs'' 1 =
        (None, \<lparr>backends = [objs_backend, alt_backend]\<rparr>) \<and>
      ''../alt'' \<in> set [''# objects of the upstream repository'', [], ''../alt''] \<and>
      ''../alt'' \<noteq> [] \<and> hd ''../alt'' = CHR ''.''"
    by (simp add: example_join GIT_ALTERNATES_FILE_def lines_example load_objs_1)
  have s: "stat_dir example_store (filepath_Join example_store ''objs'' ''../alt'') = Some 2"
    by (simp add: example_join stat_example)
  from alternates_depth [of 1 example_store "''objs''" _ "\<lparr>backends = [objs_backend]\<rparr>"
      "\<lparr>backends = [objs_backend, alt_backend]\<rparr>" "''../alt''", THEN conjunct1, rule_format, OF h] s
  have r: "registered \<lparr>backends = [objs_backend, alt_backend]\<rparr> 2" by auto
  from alternates_depth [of 0 example_store "''objs''" "[]" "\<lparr>backends = [objs_backend]\<rparr>"
      "\<lparr>backends = []\<rparr>" "[]", THEN conjunct2]
  have z: "snd (loadAlternates example_store \<lparr>backends = [objs_backend]\<rparr> ''objs'' 0) = \<lparr>backends = [objs_backend]\<rparr>"
    by simp
  from h s r z show ?thesis by simp
qed

text \<open>The claim as it was stated fails at depth 0: opening the example store, whose
  alternates file names the existing store \<open>../alt\<close>, registers the store itself and
  nothing else, and the blob stored in \<open>../alt\<close> is not found through the Odb.\<close>

theorem alternates_skipped_at_root:
  "stat_dir example_store (filepath_Join example_store ''objs'' ''../alt'') = Some 2 \<and>
   OdbOpen example_store ''objs'' = (None, \<lparr>backends = [objs_backend]\<rparr>) \<and>
   Loose_Exists example_store alt_backend hello_oid \<and>
   Odb_Exists example_store (snd (OdbOpen example_store ''objs'')) hello_oid = False"
proof -
  have "addBackendInternal \<lparr>backends = []\<rparr> (NewOdbBackendLoose ''objs'') GIT_LOOSE_PRIORITY False 1 =
      \<lparr>backends = [objs_backend]\<rparr>"
    using sort_two(2) by (simp add: addBackendInternal_def objs_backend_def)
  then have o: "OdbOpen example_store ''objs'' = (None, \<lparr>backends = [objs_backend]\<rparr>)"
    by (simp add: OdbOpen_def AddDefaultBackends.simps stat_example load_objs_0)
  have e: "Loose_Exists example_store alt_backend hello_oid"
    by (simp add: Loose_Exists_def example_paths example_files)
  have n: "Odb_Exists example_store \<lparr>backends = [objs_backend]\<rparr> hello_oid = False"
    by (simp add: Odb_Exists_def Loose_Exists_def example_paths example_files)
  from o e n show ?thesis by (simp add: example_join stat_example)
qed

section \<open>Writing an object\<close>

text \<open>\<^verbatim>\<open>Write\<close> never brings a file into being: a path with no file has none afterwards.\<close>

lemma Write_creates_no_file:
  "files w p = NotExist \<Longrightarrow> files (snd (Loose_Write w backend data t)) p = NotExist"
  by (auto simp: Loose_Write_def MkdirAll_def Let_def
      split: outcome.splits prod.splits access.splits option.splits)

lemma Write_keeps_Join:
  "filepath_Join (snd (Loose_Write w backend data t)) = filepath_Join w"
  by (auto simp: Loose_Write_def MkdirAll_def Let_def
      split: outcome.splits prod.splits access.splits option.splits)

lemma Write_returns_hash:
  "hash_object w data t = Return oid \<Longrightarrow> fst (Loose_Write w backend data t) = Return oid"
  by (auto simp: Loose_Write_def Let_def split: prod.splits access.splits)

lemma Write_new_object_unreadable:
  assumes "hash_object w data t = Return oid" "files w (object_path w backend oid) = NotExist"
  shows "fst (Loose_Write w backend data t) = Return oid \<and>
         Loose_Read (snd (Loose_Write w backend data t)) backend oid = Failure IOError"
proof -
  have "object_path (snd (Loose_Write w backend data t)) backend oid = object_path w backend oid"
    by (simp add: object_path_def Write_keeps_Join)
  with Write_creates_no_file [OF assms(2), of backend data t]
  have "Loose_Read (snd (Loose_Write w backend data t)) backend oid = Failure IOError"
    by (simp add: Loose_Read_def)
  with Write_returns_hash [OF assms(1)] show ?thesis by simp
qed

text \<open>
  Claim C4. The claim: \<^verbatim>\<open>Write(data, type)\<close> succeeds, creates the two-level directory if
  absent, streams the compressed envelope to the destination file, and \<^verbatim>\<open>Read\<close> of the
  returned Oid gives back the type and the payload. In the example store, which does not
  hold the blob \<open>hello\<close>, \<^verbatim>\<open>Write\<close> returns the Oid of the blob and no error, and \<^verbatim>\<open>Read\<close>
  of that Oid fails afterwards: the destination is opened without the flag that creates
  it.
\<close>

theorem write_then_read_fails:
  "hash_object example_store (str ''hello'') ObjectBlob = Return hello_oid \<and>
   fst (Loose_Write example_store objs_backend (str ''hello'') ObjectBlob) = Return hello_oid \<and>
   Loose_Read (snd (Loose_Write example_store objs_backend (str ''hello'') ObjectBlob))
     objs_backend hello_oid = Failure IOError"
proof -
  have h: "hash_object example_store (str ''hello'') ObjectBlob = Return hello_oid"
    by (simp add: example_store_def)
  have f: "files example_store (object_path example_store objs_backend hello_oid) = NotExist"
    by (simp add: example_paths example_files)
  from Write_new_object_unreadable [OF h f] h show ?thesis by simp
qed

end
